theory Spec2Isabelle
  imports Complex_Main
begin

section \<open>Slot selection form (ScheduleMeeting.js)\<close>

text \<open>
  Strings of the program are modelled as \<open>string\<close>, a list of 8-bit characters.
  Every test the program makes on a character (digit, plus sign, ASCII letter, colon,
  white space) is a test on an ASCII character, so a character above 127 stands for
  any code unit that is none of these; white space outside ASCII is not modelled.
\<close>

text \<open>A time slot as the calendar service returns it: two time stamps.\<close>

record time_slot =
  slot_start :: string
  slot_end :: string

text \<open>The object built by \<open>formatSlot\<close>: \<open>{id, label, start, end}\<close>.\<close>

record selected_slot =
  slot_id :: string
  slot_label :: string
  sel_start :: string
  sel_end :: string

text \<open>
  \<open>formatSlot\<close>. The label is formatted by the moment library from the two time
  stamps; that library is not part of the repository, so its formatting is the
  parameter \<open>fmt\<close>. The id is the template literal \<open>`${slot.start}-${slot.end}`\<close>.
\<close>

definition formatSlot :: "(string \<Rightarrow> string \<Rightarrow> string) \<Rightarrow> time_slot \<Rightarrow> selected_slot" where
  "formatSlot fmt slot =
     \<lparr> slot_id = slot_start slot @ ''-'' @ slot_end slot,
       slot_label = fmt (slot_start slot) (slot_end slot),
       sel_start = slot_start slot,
       sel_end = slot_end slot \<rparr>"

text \<open>
  The state of the form component: every \<open>useState\<close> cell of \<open>ScheduleMeeting\<close>.
  The error object \<open>errors\<close> is a map from field name to message.
\<close>

record form_state =
  phoneNumber :: string
  inviteeName :: string
  occasion :: string
  duration :: string
  selectedSlots :: "selected_slot list"
  errors :: "string \<rightharpoonup> string"
  submitting :: bool
  success :: bool

definition initial_form :: form_state where
  "initial_form =
     \<lparr> phoneNumber = [], inviteeName = [], occasion = ''Coffee'',
       duration = ''30 minutes'', selectedSlots = [], errors = Map.empty,
       submitting = False, success = False \<rparr>"

text \<open>
  \<open>handleSlotSelect\<close>: \<open>find\<close> by id; when found, \<open>filter\<close> out every entry with
  that id; otherwise append when fewer than five are selected; otherwise nothing.
\<close>

definition handleSlotSelect :: "form_state \<Rightarrow> selected_slot \<Rightarrow> form_state" where
  "handleSlotSelect st formatted =
     (if find (\<lambda>s. slot_id s = slot_id formatted) (selectedSlots st) \<noteq> None
      then st\<lparr>selectedSlots := filter (\<lambda>s. slot_id s \<noteq> slot_id formatted) (selectedSlots st)\<rparr>
      else if length (selectedSlots st) < 5
      then st\<lparr>selectedSlots := selectedSlots st @ [formatted]\<rparr>
      else st)"

text \<open>Any sequence of selection clicks, from any state.\<close>

definition select_all :: "form_state \<Rightarrow> selected_slot list \<Rightarrow> form_state" where
  "select_all st fs = foldl handleSlotSelect st fs"

text \<open>Concrete slots used to exercise the statements below.\<close>

definition ex_slot :: "string \<Rightarrow> string \<Rightarrow> selected_slot" where
  "ex_slot a b = formatSlot (\<lambda>x y. x @ '' to '' @ y) \<lparr>slot_start = a, slot_end = b\<rparr>"

definition ex_form :: "selected_slot list \<Rightarrow> form_state" where
  "ex_form xs = initial_form\<lparr>selectedSlots := xs\<rparr>"

definition ex_five :: "selected_slot list" where
  "ex_five = [ex_slot ''09'' ''10'', ex_slot ''10'' ''11'', ex_slot ''11'' ''12'',
              ex_slot ''12'' ''13'', ex_slot ''13'' ''14'']"

section \<open>Regular expressions\<close>

text \<open>
  The two regular expressions of the program are values of a small regular-expression
  type, matched by a backtracking matcher: \<open>rmatch r s\<close> lists, in the order in which a
  backtracking engine finds them, the rests of \<open>s\<close> after each way of matching \<open>r\<close>
  at the start of \<open>s\<close>. Quantifiers are greedy: one more repetition is tried before
  stopping.
\<close>

datatype regex =
    Eps
  | Cls "char \<Rightarrow> bool"
  | Seq regex regex
  | Alt regex regex
  | Opt regex
  | Rep regex nat nat

fun rep :: "(string \<Rightarrow> string list) \<Rightarrow> nat \<Rightarrow> nat \<Rightarrow> string \<Rightarrow> string list" where
  "rep m lo 0 s = (if lo = 0 then [s] else [])"
| "rep m lo (Suc hi) s =
     concat (map (rep m (lo - 1) hi) (m s)) @ (if lo = 0 then [s] else [])"

primrec rmatch :: "regex \<Rightarrow> string \<Rightarrow> string list" where
  "rmatch Eps s = [s]"
| "rmatch (Cls p) s = (case s of [] \<Rightarrow> [] | c # cs \<Rightarrow> if p c then [cs] else [])"
| "rmatch (Seq a b) s = concat (map (rmatch b) (rmatch a s))"
| "rmatch (Alt a b) s = rmatch a s @ rmatch b s"
| "rmatch (Opt a) s = rmatch a s @ [s]"
| "rmatch (Rep a lo hi) s = rep (rmatch a) lo hi s"

text \<open>\<open>/^r$/.test(s)\<close>: some way of matching \<open>r\<close> from the start uses up all of \<open>s\<close>.\<close>

definition regex_test :: "regex \<Rightarrow> string \<Rightarrow> bool" where
  "regex_test r s = ([] \<in> set (rmatch r s))"

text \<open>\<open>\d\<close> is an ASCII digit; \<open>[1-9]\<close> a digit other than zero.\<close>

definition is_digit :: "char \<Rightarrow> bool" where
  "is_digit c = (48 \<le> (of_char c :: nat) \<and> (of_char c :: nat) \<le> 57)"

definition is_digit19 :: "char \<Rightarrow> bool" where
  "is_digit19 c = (49 \<le> (of_char c :: nat) \<and> (of_char c :: nat) \<le> 57)"

section \<open>Form validation and submission (ScheduleMeeting.js)\<close>

text \<open>\<open>const phoneRegex = /^\+?[1-9]\d{1,14}$/\<close>\<close>

definition phoneRegex :: regex where
  "phoneRegex =
     Seq (Opt (Cls (\<lambda>c. c = CHR ''+'')))
       (Seq (Cls is_digit19) (Rep (Cls is_digit) 1 14))"

definition validatePhoneNumber :: "string \<Rightarrow> bool" where
  "validatePhoneNumber number = regex_test phoneRegex number"

text \<open>
  \<open>validateForm\<close>: the keys set in \<open>newErrors\<close>, in the order of the source; the new
  state after \<open>setErrors(newErrors)\<close>, and the result \<open>Object.keys(newErrors).length === 0\<close>.
  A string is falsy exactly when it is empty.
\<close>

definition validateForm :: "form_state \<Rightarrow> form_state \<times> bool" where
  "validateForm st =
     (let e1 = (if phoneNumber st = [] then [(''phoneNumber'', ''Phone number is required'')]
                else if \<not> validatePhoneNumber (phoneNumber st)
                then [(''phoneNumber'', ''Enter a valid phone number (e.g., +11234567890)'')]
                else []);
          e2 = (if inviteeName st = [] then [(''inviteeName'', ''Invitee name is required'')]
                else []);
          e3 = (if length (selectedSlots st) = 0
                then [(''slots'', ''Select at least one available time slot'')] else []);
          newErrors = e1 @ e2 @ e3
      in (st\<lparr>errors := map_of newErrors\<rparr>, newErrors = []))"

text \<open>The body of the placement request built by \<open>handleSubmit\<close>.\<close>

record call_request =
  req_phoneNumber :: string
  req_inviteeName :: string
  req_occasion :: string
  req_duration :: string
  availabilities :: "time_slot list"
  voice :: string

text \<open>
  \<open>handleSubmit\<close> up to the call of \<open>onPlaceCall\<close>: the new state and the request that is
  sent, if one is. When validation fails the handler returns before anything is sent.
\<close>

definition handleSubmit :: "form_state \<Rightarrow> form_state \<times> call_request option" where
  "handleSubmit st =
     (let (st1, valid) = validateForm st
      in if \<not> valid then (st1, None)
         else (st1\<lparr>submitting := True\<rparr>,
               Some \<lparr> req_phoneNumber = phoneNumber st, req_inviteeName = inviteeName st,
                      req_occasion = occasion st, req_duration = duration st,
                      availabilities =
                        map (\<lambda>slot. \<lparr>slot_start = sel_start slot, slot_end = sel_end slot\<rparr>)
                          (selectedSlots st),
                      voice = ''josh'' \<rparr>))"

text \<open>\<open>handleSubmit\<close> after \<open>onPlaceCall\<close> has resolved (\<open>True\<close>) or rejected.\<close>

definition handleSubmit_settled :: "form_state \<Rightarrow> bool \<Rightarrow> form_state" where
  "handleSubmit_settled st resolved =
     (if resolved then st\<lparr>success := True, selectedSlots := [], submitting := False\<rparr>
      else st\<lparr>submitting := False\<rparr>)"

text \<open>
  The phone format in the words of the specification: an optional leading plus sign, a
  first digit from 1 to 9, then 1 to 14 further digits.
\<close>

definition intl_format :: "string \<Rightarrow> bool" where
  "intl_format s =
     (let ds = (case s of [] \<Rightarrow> [] | c # r \<Rightarrow> if c = CHR ''+'' then r else s)
      in case ds of
           [] \<Rightarrow> False
         | d # rest \<Rightarrow>
             is_digit19 d \<and> list_all is_digit rest \<and> 1 \<le> length rest \<and> length rest \<le> 14)"

text \<open>A filled-in form with one selected slot, for the concrete checks.\<close>

definition ex_filled :: "string \<Rightarrow> string \<Rightarrow> form_state" where
  "ex_filled phone name =
     initial_form\<lparr>phoneNumber := phone, inviteeName := name,
       selectedSlots := [ex_slot ''09'' ''10'']\<rparr>"

section \<open>JavaScript values\<close>

text \<open>
  The values that reach the program from the network and from the host page: what
  \<open>JSON.parse\<close> can return, \<open>undefined\<close>, and the two numbers JSON cannot express.
  A number is kept as a rational; the only thing the program asks of a number is
  whether it is truthy. An object is the list of its own properties; a property is
  looked up with \<open>map_of\<close>.
\<close>

datatype js_value =
    JUndefined
  | JNull
  | JBool bool
  | JNumber rat
  | JNaN
  | JInfinity bool
  | JString string
  | JArray "js_value list"
  | JObject "(string \<times> js_value) list"

fun truthy :: "js_value \<Rightarrow> bool" where
  "truthy JUndefined = False"
| "truthy JNull = False"
| "truthy (JBool b) = b"
| "truthy (JNumber n) = (n \<noteq> 0)"
| "truthy JNaN = False"
| "truthy (JInfinity _) = True"
| "truthy (JString s) = (s \<noteq> [])"
| "truthy (JArray _) = True"
| "truthy (JObject _) = True"

text \<open>\<open>a || b\<close>\<close>

definition js_or :: "js_value \<Rightarrow> js_value \<Rightarrow> js_value" where
  "js_or a b = (if truthy a then a else b)"

text \<open>
  \<open>v.k\<close> for the property names the program reads (\<open>call_id\<close>, \<open>status\<close>, \<open>role\<close>,
  \<open>text\<close>, ...): a \<open>TypeError\<close> (\<open>None\<close>) on \<open>null\<close> and \<open>undefined\<close>, the own property of
  an object, and \<open>undefined\<close> otherwise, none of these names being a property of the
  built-in prototypes.
\<close>

fun get_prop :: "js_value \<Rightarrow> string \<Rightarrow> js_value option" where
  "get_prop JUndefined k = None"
| "get_prop JNull k = None"
| "get_prop (JObject kvs) k = Some (case map_of kvs k of None \<Rightarrow> JUndefined | Some v \<Rightarrow> v)"
| "get_prop v k = Some JUndefined"

text \<open>\<open>v.k\<close> where \<open>v\<close> is known to be neither \<open>null\<close> nor \<open>undefined\<close>, so that nothing is thrown.\<close>

definition js_prop :: "js_value \<Rightarrow> string \<Rightarrow> js_value" where
  "js_prop v k = (case get_prop v k of None \<Rightarrow> JUndefined | Some x \<Rightarrow> x)"

text \<open>
  What the program uses of the language, none of it code of the repository:
  \<open>JSON.parse\<close> (\<open>None\<close> when it throws a \<open>SyntaxError\<close>) and the conversion of a value to
  a string in a template literal.
\<close>

record js_host =
  JSON_parse :: "string \<Rightarrow> js_value option"
  to_string :: "js_value \<Rightarrow> string"

section \<open>String operations\<close>

definition to_lower :: "char \<Rightarrow> char" where
  "to_lower c =
     (if 65 \<le> (of_char c :: nat) \<and> (of_char c :: nat) \<le> 90
      then char_of ((of_char c :: nat) + 32) else c)"

definition toLowerCase :: "string \<Rightarrow> string" where
  "toLowerCase s = map to_lower s"

definition starts_with :: "string \<Rightarrow> string \<Rightarrow> bool" where
  "starts_with p s = (take (length p) s = p)"

text \<open>\<open>s.includes(sub)\<close>\<close>

fun str_includes :: "string \<Rightarrow> string \<Rightarrow> bool" where
  "str_includes [] sub = (sub = [])"
| "str_includes (c # cs) sub = (starts_with sub (c # cs) \<or> str_includes cs sub)"

text \<open>\<open>s.split('\n')\<close>: never the empty list.\<close>

fun split_lines :: "string \<Rightarrow> string list" where
  "split_lines [] = [[]]"
| "split_lines (c # cs) =
     (if c = CHR 0x0A then [] # split_lines cs
      else (case split_lines cs of [] \<Rightarrow> [[c]] | l # ls \<Rightarrow> (c # l) # ls))"

text \<open>White space of \<open>trim\<close>: tab, line feed, vertical tab, form feed, carriage return, space.\<close>

definition is_space :: "char \<Rightarrow> bool" where
  "is_space c = ((of_char c :: nat) \<in> {9, 10, 11, 12, 13, 32})"

definition trim :: "string \<Rightarrow> string" where
  "trim s = rev (dropWhile is_space (rev (dropWhile is_space s)))"

text \<open>A literal under the \<open>i\<close> flag: each character up to the case of ASCII letters.\<close>

fun lit_ci :: "string \<Rightarrow> regex" where
  "lit_ci [] = Eps"
| "lit_ci (c # cs) = Seq (Cls (\<lambda>x. to_lower x = to_lower c)) (lit_ci cs)"

text \<open>
  \<open>s.replace(/^r/, '')\<close>: without the \<open>g\<close> and \<open>m\<close> flags the pattern is tried at the start
  of the string only, and the first way of matching is the one removed.
\<close>

definition replace_prefix :: "regex \<Rightarrow> string \<Rightarrow> string" where
  "replace_prefix r s = (case rmatch r s of [] \<Rightarrow> s | rest # _ \<Rightarrow> rest)"

section \<open>Normalising the provider's call data (mcpUtils.js)\<close>

text \<open>\<open>/^(Agent:|User:|AI:)/i\<close>\<close>

definition rolePrefix :: regex where
  "rolePrefix = Alt (lit_ci ''Agent:'') (Alt (lit_ci ''User:'') (lit_ci ''AI:''))"

text \<open>The callback of the line map in \<open>formatTranscript\<close>.\<close>

definition format_line :: "string \<Rightarrow> js_value" where
  "format_line line =
     (let isAgent = (str_includes (toLowerCase line) ''agent:'' \<or> str_includes (toLowerCase line) ''ai:'')
      in JObject [(''role'', JString (if isAgent then ''agent'' else ''user'')),
                  (''text'', JString (trim (replace_prefix rolePrefix line)))])"

text \<open>
  The callback of the array map: \<open>None\<close> when reading a property of the entry throws
  (the entry is \<open>null\<close>).
\<close>

definition format_entry :: "js_value \<Rightarrow> js_value option" where
  "format_entry entry =
     (case get_prop entry ''role'' of
        None \<Rightarrow> None
      | Some r \<Rightarrow>
          Some (JObject
            [(''role'', js_or (js_or r (js_prop entry ''speaker'')) (JString ''unknown'')),
             (''text'', js_or (js_or (js_prop entry ''text'') (js_prop entry ''content'')) (JString []))]))"

text \<open>\<open>xs.map(f)\<close> where \<open>f\<close> may throw: the exception leaves the map.\<close>

fun map_throwing :: "('a \<Rightarrow> 'b option) \<Rightarrow> 'a list \<Rightarrow> 'b list option" where
  "map_throwing f [] = Some []"
| "map_throwing f (x # xs) =
     (case f x of None \<Rightarrow> None
      | Some y \<Rightarrow> (case map_throwing f xs of None \<Rightarrow> None | Some ys \<Rightarrow> Some (y # ys)))"

text \<open>
  \<open>formatTranscript\<close>. The first line returns the empty list for anything that is not a
  non-empty string. Then: \<open>JSON.parse\<close> throws, and the lines are formatted; or it
  returns an array, and the entries are formatted, an exception there being caught by
  the outer \<open>try\<close>; or it returns something else.
\<close>

definition formatTranscript :: "js_host \<Rightarrow> js_value \<Rightarrow> js_value list" where
  "formatTranscript host transcript =
     (case transcript of
        JString s \<Rightarrow>
          (if s = [] then []
           else (case JSON_parse host s of
                   None \<Rightarrow> map format_line (split_lines s)
                 | Some (JArray entries) \<Rightarrow>
                     (case map_throwing format_entry entries of None \<Rightarrow> [] | Some es \<Rightarrow> es)
                 | Some _ \<Rightarrow> []))
      | _ \<Rightarrow> [])"

text \<open>One entry of the synthetic event list.\<close>

definition mcp_event :: "js_value \<Rightarrow> string \<Rightarrow> js_value \<Rightarrow> js_value" where
  "mcp_event t s d = JObject [(''time'', t), (''status'', JString s), (''details'', d)]"

text \<open>
  \<open>generateEventsFromMcp\<close>, for call data that is truthy. \<open>now\<close> is the reading of the
  clock, \<open>new Date().toISOString()\<close>.
\<close>

definition generateEventsFromMcp :: "js_host \<Rightarrow> string \<Rightarrow> js_value \<Rightarrow> js_value list" where
  "generateEventsFromMcp host now mcpData =
     (if truthy (js_prop mcpData ''created_at'')
      then [mcp_event (js_prop mcpData ''created_at'') ''Call initiated''
              (JString ''Request sent to Bland AI'')]
      else []) @
     (if js_prop mcpData ''status'' = JString ''queued'' \<or> truthy (js_prop mcpData ''queue_time'')
      then [mcp_event (js_or (js_prop mcpData ''queue_time'') (JString now)) ''Call queued''
              (JString ''Call is waiting in queue'')]
      else []) @
     (if js_prop mcpData ''status'' = JString ''in_progress'' \<or> truthy (js_prop mcpData ''start_time'')
      then [mcp_event (js_or (js_prop mcpData ''start_time'') (JString now)) ''Call in progress''
              (JString ''Conversation has started'')]
      else []) @
     (if js_prop mcpData ''status'' = JString ''completed'' \<or> truthy (js_prop mcpData ''end_time'')
      then [mcp_event (js_or (js_prop mcpData ''end_time'') (JString now)) ''Call completed''
              (JString (''Call finished after '' @
                 to_string host (js_or (js_prop mcpData ''duration'') (JNumber 0)) @ '' seconds''))]
      else []) @
     (if js_prop mcpData ''status'' = JString ''error''
      then [mcp_event (JString now) ''Call error''
              (js_or (js_prop mcpData ''error'') (JString ''An error occurred during the call''))]
      else [])"

text \<open>
  \<open>formatMcpCallData\<close>: \<open>null\<close> (\<open>None\<close>) for falsy call data, and otherwise the object
  literal with its six properties, present whether or not the call data has them.
\<close>

definition formatMcpCallData ::
  "js_host \<Rightarrow> string \<Rightarrow> js_value \<Rightarrow> (string \<times> js_value) list option" where
  "formatMcpCallData host now mcpData =
     (if \<not> truthy mcpData then None
      else Some
        [(''call_id'', js_prop mcpData ''call_id''),
         (''status'', js_prop mcpData ''status''),
         (''duration_seconds'', js_prop mcpData ''duration''),
         (''credits_used'', js_prop mcpData ''credits''),
         (''transcript'',
            JArray (if truthy (js_prop mcpData ''transcript'')
                    then formatTranscript host (js_prop mcpData ''transcript'') else [])),
         (''events'', JArray (generateEventsFromMcp host now mcpData))])"

text \<open>
  A host for the concrete checks. Its \<open>JSON.parse\<close> returns the array of one record for
  the JSON text \<open>ex_json\<close> and \<open>null\<close> for the JSON text \<open>null\<close>, and throws on every other
  text; the other texts used below (\<open>Agent: Hello...\<close>) are not JSON, so the real
  \<open>JSON.parse\<close> throws on them too.
\<close>

definition ex_json :: string where
  "ex_json = ''[{\"role\":\"assistant\",\"text\":\"Hello\"}]''"

definition ex_host :: js_host where
  "ex_host =
     \<lparr> JSON_parse = (\<lambda>s. if s = ex_json
          then Some (JArray [JObject [(''role'', JString ''assistant''), (''text'', JString ''Hello'')]])
          else if s = ''null'' then Some JNull
          else None),
       to_string = (\<lambda>v. case v of JNumber n \<Rightarrow> (if n = 42 then ''42'' else ''0'') | _ \<Rightarrow> ''0'') \<rparr>"

section \<open>Call-status synchroniser (the useCallStatus hook, the CallStatus component)\<close>

text \<open>
  The call snapshot \<open>callData\<close> is an object: a map from property names to values. The
  back end answers \<open>getCallStatus\<close> with such an object.
\<close>

type_synonym snapshot = "string \<rightharpoonup> js_value"

text \<open>\<open>data.status === 'completed' || data.status === 'error'\<close>\<close>

definition terminal :: "snapshot \<Rightarrow> bool" where
  "terminal data =
     (data ''status'' = Some (JString ''completed'') \<or> data ''status'' = Some (JString ''error''))"

text \<open>\<open>{...prevData, ...formattedData}\<close>: spreading \<open>null\<close> adds nothing.\<close>

definition spread :: "snapshot \<Rightarrow> (string \<times> js_value) list option \<Rightarrow> snapshot" where
  "spread prevData formattedData =
     (case formattedData of None \<Rightarrow> prevData | Some kvs \<Rightarrow> prevData ++ map_of kvs)"

text \<open>
  The state shared by the hook and the component: the three \<open>useState\<close> cells, whether
  the interval set by \<open>setInterval\<close> is still armed (\<open>intervalId\<close> set and not cleared),
  and how many \<open>getCallStatus\<close> requests have been issued and how many have settled.
\<close>

record sync_state =
  callData :: snapshot
  loading :: bool
  error :: "string option"
  timer :: bool
  fetches_issued :: nat
  fetches_settled :: nat

text \<open>
  The hook adds \<open>usingMcp\<close>, whether \<open>handleMcpUpdate\<close> is registered with the provider,
  and the number of \<open>get_call_details\<close> calls that have not settled yet.
\<close>

record hook_state = sync_state +
  usingMcp :: bool
  listener :: bool
  details_pending :: nat

text \<open>The component adds \<open>refreshCount\<close>.\<close>

record view_state = sync_state +
  refreshCount :: nat

text \<open>
  \<open>fetchCallStatus\<close> (the same text in the hook and in the component) up to its
  \<open>await\<close>, and after it: the request resolved with \<open>data\<close>, or was rejected.
  \<open>clearInterval\<close> disarms the interval.
\<close>

definition fetchCallStatus_call :: "string \<Rightarrow> 'a sync_state_scheme \<Rightarrow> 'a sync_state_scheme" where
  "fetchCallStatus_call callId st =
     (if callId = [] then st
      else st\<lparr>loading := True, fetches_issued := Suc (fetches_issued st)\<rparr>)"

definition fetchCallStatus_resolved ::
  "'a sync_state_scheme \<Rightarrow> snapshot \<Rightarrow> 'a sync_state_scheme" where
  "fetchCallStatus_resolved st data =
     st\<lparr>callData := data, error := None,
        timer := (if terminal data then False else timer st),
        loading := False, fetches_settled := Suc (fetches_settled st)\<rparr>"

definition fetchCallStatus_rejected :: "'a sync_state_scheme \<Rightarrow> 'a sync_state_scheme" where
  "fetchCallStatus_rejected st =
     st\<lparr>error := Some ''Unable to fetch call status'', loading := False,
        fetches_settled := Suc (fetches_settled st)\<rparr>"

text \<open>
  \<open>window.blandmcp\<close>: undefined; some other falsy value; or a truthy value, with whether
  it has \<open>registerCallListener\<close> and whether it has \<open>unregisterCallListener\<close>.
\<close>

datatype blandmcp = McpUndefined | McpFalsy | McpObject bool bool

definition checkMcpAvailability :: "blandmcp \<Rightarrow> bool" where
  "checkMcpAvailability mcp = (mcp \<noteq> McpUndefined)"

text \<open>
  \<open>handleMcpUpdate\<close> up to its \<open>await\<close> of \<open>get_call_details\<close>, and after it: the details
  arrived and are merged, or the call failed and the handler falls back to one fetch.
\<close>

definition handleMcpUpdate_call :: "string \<Rightarrow> hook_state \<Rightarrow> js_value \<Rightarrow> hook_state" where
  "handleMcpUpdate_call callId st mcpEvent =
     (if truthy mcpEvent \<and> js_prop mcpEvent ''call_id'' = JString callId
      then st\<lparr>details_pending := Suc (details_pending st)\<rparr>
      else st)"

definition handleMcpUpdate_resolved ::
  "js_host \<Rightarrow> string \<Rightarrow> hook_state \<Rightarrow> js_value \<Rightarrow> hook_state" where
  "handleMcpUpdate_resolved host now st mcpData =
     st\<lparr>callData := spread (callData st) (formatMcpCallData host now mcpData),
        error := None, details_pending := details_pending st - 1\<rparr>"

definition handleMcpUpdate_rejected :: "string \<Rightarrow> hook_state \<Rightarrow> hook_state" where
  "handleMcpUpdate_rejected callId st =
     fetchCallStatus_call callId (st\<lparr>details_pending := details_pending st - 1\<rparr>)"

text \<open>The state of a hook before its effect has run: \<open>useState(initialData || {})\<close>.\<close>

definition useCallStatus_init :: "snapshot option \<Rightarrow> hook_state" where
  "useCallStatus_init initialData =
     \<lparr> callData = (case initialData of None \<Rightarrow> Map.empty | Some d \<Rightarrow> d),
       loading = False, error = None, timer = False,
       fetches_issued = 0, fetches_settled = 0,
       usingMcp = False, listener = False, details_pending = 0 \<rparr>"

text \<open>
  The effect of the hook, run when \<open>callId\<close> is set. An empty \<open>callId\<close> is falsy and the
  effect returns at once. With a truthy \<open>window.blandmcp\<close>: the listener is registered and
  called once, or, without \<open>registerCallListener\<close>, one fetch is made and \<open>usingMcp\<close> is
  reset. Otherwise: one fetch, and the interval of 3000 ms is armed.
\<close>

definition useCallStatus_effect :: "string \<Rightarrow> blandmcp \<Rightarrow> hook_state \<Rightarrow> hook_state" where
  "useCallStatus_effect callId mcp st =
     (if callId = [] then st
      else
        (let isMcpAvailable = checkMcpAvailability mcp;
             st1 = st\<lparr>usingMcp := isMcpAvailable\<rparr>
         in case mcp of
              McpObject registerCallListener unregisterCallListener \<Rightarrow>
                (if registerCallListener
                 then handleMcpUpdate_call callId (st1\<lparr>listener := True\<rparr>)
                        (JObject [(''call_id'', JString callId)])
                 else (fetchCallStatus_call callId st1)\<lparr>usingMcp := False\<rparr>)
            | _ \<Rightarrow> (fetchCallStatus_call callId st1)\<lparr>timer := True\<rparr>))"

text \<open>The clean-up function that the effect returns, run on unmount.\<close>

definition useCallStatus_cleanup :: "string \<Rightarrow> blandmcp \<Rightarrow> hook_state \<Rightarrow> hook_state" where
  "useCallStatus_cleanup callId mcp st =
     (if callId = [] then st
      else case mcp of
             McpObject registerCallListener unregisterCallListener \<Rightarrow>
               (if unregisterCallListener then st\<lparr>listener := False\<rparr> else st)
           | _ \<Rightarrow> st\<lparr>timer := False\<rparr>)"

text \<open>
  What can happen to a mounted synchroniser: the interval fires; a pending
  \<open>getCallStatus\<close> resolves or is rejected; the provider calls the listener with an
  event; a pending \<open>get_call_details\<close> resolves (at some reading of the clock) or fails.
\<close>

datatype sync_event =
    Tick
  | FetchResolved snapshot
  | FetchRejected
  | McpEvent js_value
  | DetailsResolved js_value string
  | DetailsRejected

text \<open>
  One event in the hook. A cleared interval does not fire, a request that was not issued
  does not settle, and a listener that is not registered is not called.
\<close>

definition hook_step :: "js_host \<Rightarrow> string \<Rightarrow> hook_state \<Rightarrow> sync_event \<Rightarrow> hook_state" where
  "hook_step host callId st ev =
     (case ev of
        Tick \<Rightarrow> if timer st then fetchCallStatus_call callId st else st
      | FetchResolved data \<Rightarrow>
          if fetches_settled st < fetches_issued st then fetchCallStatus_resolved st data else st
      | FetchRejected \<Rightarrow>
          if fetches_settled st < fetches_issued st then fetchCallStatus_rejected st else st
      | McpEvent mcpEvent \<Rightarrow>
          if listener st then handleMcpUpdate_call callId st mcpEvent else st
      | DetailsResolved mcpData now \<Rightarrow>
          if 0 < details_pending st then handleMcpUpdate_resolved host now st mcpData else st
      | DetailsRejected \<Rightarrow>
          if 0 < details_pending st then handleMcpUpdate_rejected callId st else st)"

definition hook_run :: "js_host \<Rightarrow> string \<Rightarrow> hook_state \<Rightarrow> sync_event list \<Rightarrow> hook_state" where
  "hook_run host callId st evs = foldl (hook_step host callId) st evs"

text \<open>
  The polling effect of the \<open>CallStatus\<close> component: one fetch, and the interval, whose
  callback fetches and counts. The component has no listener.
\<close>

definition CallStatus_init :: "snapshot option \<Rightarrow> view_state" where
  "CallStatus_init initialData =
     \<lparr> callData = (case initialData of None \<Rightarrow> Map.empty | Some d \<Rightarrow> d),
       loading = False, error = None, timer = False,
       fetches_issued = 0, fetches_settled = 0, refreshCount = 0 \<rparr>"

definition CallStatus_effect :: "string \<Rightarrow> view_state \<Rightarrow> view_state" where
  "CallStatus_effect callId st = (fetchCallStatus_call callId st)\<lparr>timer := True\<rparr>"

definition view_step :: "string \<Rightarrow> view_state \<Rightarrow> sync_event \<Rightarrow> view_state" where
  "view_step callId st ev =
     (case ev of
        Tick \<Rightarrow>
          if timer st
          then (fetchCallStatus_call callId st)\<lparr>refreshCount := Suc (refreshCount st)\<rparr>
          else st
      | FetchResolved data \<Rightarrow>
          if fetches_settled st < fetches_issued st then fetchCallStatus_resolved st data else st
      | FetchRejected \<Rightarrow>
          if fetches_settled st < fetches_issued st then fetchCallStatus_rejected st else st
      | _ \<Rightarrow> st)"

definition view_run :: "string \<Rightarrow> view_state \<Rightarrow> sync_event list \<Rightarrow> view_state" where
  "view_run callId st evs = foldl (view_step callId) st evs"

text \<open>Snapshots for the concrete checks.\<close>

definition ex_status :: "string \<Rightarrow> snapshot" where
  "ex_status s = map_of [(''call_id'', JString ''c1''), (''status'', JString s),
                         (''extracted_info'', JString ''jane@example.com'')]"

definition ex_details :: "string \<Rightarrow> js_value" where
  "ex_details s = JObject [(''call_id'', JString ''c1''), (''status'', JString s)]"

text \<open>A hook mounted for call \<open>c1\<close> without and with a provider, for the concrete checks.\<close>

definition ex_poll_hook :: hook_state where
  "ex_poll_hook =
     useCallStatus_effect ''c1'' McpUndefined (useCallStatus_init (Some (ex_status ''initiated'')))"

definition ex_push_hook :: hook_state where
  "ex_push_hook =
     useCallStatus_effect ''c1'' (McpObject True True)
       (useCallStatus_init (Some (ex_status ''initiated'')))"

definition ex_view :: view_state where
  "ex_view = CallStatus_effect ''c1'' (CallStatus_init None)"

section \<open>Properties of slot selection\<close>

lemma find_None_ids: "(find (\<lambda>s. slot_id s = i) xs = None) = (i \<notin> slot_id ` set xs)"
  by (auto simp: find_None_iff)

lemma handleSlotSelect_length:
  "length (selectedSlots st) \<le> 5 \<Longrightarrow> length (selectedSlots (handleSlotSelect st f)) \<le> 5"
  by (auto simp: handleSlotSelect_def intro: le_trans [OF length_filter_le])

lemma select_all_length:
  "length (selectedSlots st) \<le> 5 \<Longrightarrow> length (selectedSlots (select_all st fs)) \<le> 5"
  unfolding select_all_def
  by (induction fs arbitrary: st) (simp_all add: handleSlotSelect_length)

lemma handleSlotSelect_distinct:
  "distinct (map slot_id (selectedSlots st)) \<Longrightarrow>
   distinct (map slot_id (selectedSlots (handleSlotSelect st f)))"
  by (auto simp: handleSlotSelect_def find_None_ids distinct_map_filter)

lemma select_all_distinct:
  "distinct (map slot_id (selectedSlots st)) \<Longrightarrow>
   distinct (map slot_id (selectedSlots (select_all st fs)))"
  unfolding select_all_def
  by (induction fs arbitrary: st) (simp_all add: handleSlotSelect_distinct)

lemma handleSlotSelect_present:
  "slot_id f \<in> slot_id ` set (selectedSlots st) \<Longrightarrow>
   selectedSlots (handleSlotSelect st f) = filter (\<lambda>s. slot_id s \<noteq> slot_id f) (selectedSlots st)"
  by (simp add: handleSlotSelect_def find_None_ids)

lemma handleSlotSelect_absent:
  "slot_id f \<notin> slot_id ` set (selectedSlots st) \<Longrightarrow>
   handleSlotSelect st f =
     (if length (selectedSlots st) < 5 then st\<lparr>selectedSlots := selectedSlots st @ [f]\<rparr> else st)"
  by (simp add: handleSlotSelect_def find_None_ids)

lemma filter_present_shorter:
  "slot_id f \<in> slot_id ` set xs \<Longrightarrow> length (filter (\<lambda>s. slot_id s \<noteq> slot_id f) xs) < length xs"
  by (induction xs) (auto simp: less_Suc_eq_le)

lemma filter_absent:
  "slot_id f \<notin> slot_id ` set xs \<Longrightarrow> filter (\<lambda>s. slot_id s \<noteq> slot_id f) xs = xs"
  by (induction xs) auto

lemma twice_absent_same:
  "slot_id f \<notin> slot_id ` set (selectedSlots st) \<Longrightarrow>
   handleSlotSelect (handleSlotSelect st f) f = st"
  by (cases "length (selectedSlots st) < 5")
     (simp_all add: handleSlotSelect_absent handleSlotSelect_def find_None_ids filter_absent)

text \<open>
  Deselecting and selecting again: the entries with the id go, and the slot comes back at
  the end of the list (there is room for it, since at least one entry went).
\<close>

lemma twice_present:
  assumes "length (selectedSlots st) \<le> 5"
    and "slot_id f \<in> slot_id ` set (selectedSlots st)"
  shows "selectedSlots (handleSlotSelect (handleSlotSelect st f) f) =
         filter (\<lambda>s. slot_id s \<noteq> slot_id f) (selectedSlots st) @ [f]"
proof -
  let ?ys = "filter (\<lambda>s. slot_id s \<noteq> slot_id f) (selectedSlots st)"
  have 1: "selectedSlots (handleSlotSelect st f) = ?ys"
    using assms(2) by (rule handleSlotSelect_present)
  have 2: "slot_id f \<notin> slot_id ` set (selectedSlots (handleSlotSelect st f))"
    unfolding 1 by auto
  have 3: "length ?ys < 5"
    using filter_present_shorter [OF assms(2)] assms(1) by simp
  show ?thesis
    using 3 by (simp add: handleSlotSelect_absent [OF 2] 1)
qed

lemma twice_ids:
  assumes "length (selectedSlots st) \<le> 5"
  shows "slot_id ` set (selectedSlots (handleSlotSelect (handleSlotSelect st f) f)) =
         slot_id ` set (selectedSlots st)"
proof (cases "slot_id f \<in> slot_id ` set (selectedSlots st)")
  case True
  show ?thesis
    unfolding twice_present [OF assms True] using True by auto
next
  case False
  then show ?thesis by (simp add: twice_absent_same)
qed

lemma twice_set:
  assumes "length (selectedSlots st) \<le> 5"
    and "\<forall>s \<in> set (selectedSlots st). slot_id s = slot_id f \<longrightarrow> s = f"
  shows "set (selectedSlots (handleSlotSelect (handleSlotSelect st f) f)) = set (selectedSlots st)"
proof (cases "slot_id f \<in> slot_id ` set (selectedSlots st)")
  case True
  show ?thesis
    unfolding twice_present [OF assms(1) True] using True assms(2) by auto
next
  case False
  then show ?thesis by (simp add: twice_absent_same)
qed

lemma initial_form_slots: "selectedSlots initial_form = []"
  by (simp add: initial_form_def)

text \<open>
  Claim C5. From the empty selection (and from any selection of at most five slots), no
  sequence of selection clicks makes the selection longer than five; and in a state
  with exactly five selected slots, selecting a slot whose id is not selected returns
  the very same state: the selection, and with it the error map, are untouched.
\<close>

theorem selection_bounded_by_five:
  "length (selectedSlots (select_all initial_form fs)) \<le> 5 \<and>
   (length (selectedSlots st) \<le> 5 \<longrightarrow> length (selectedSlots (select_all st fs)) \<le> 5) \<and>
   (length (selectedSlots st) = 5 \<and> slot_id f \<notin> slot_id ` set (selectedSlots st) \<longrightarrow>
      handleSlotSelect st f = st)"
proof (intro conjI impI)
  show "length (selectedSlots (select_all initial_form fs)) \<le> 5"
    by (rule select_all_length) (simp add: initial_form_slots)
next
  assume "length (selectedSlots st) \<le> 5"
  then show "length (selectedSlots (select_all st fs)) \<le> 5"
    by (rule select_all_length)
next
  assume "length (selectedSlots st) = 5 \<and> slot_id f \<notin> slot_id ` set (selectedSlots st)"
  then show "handleSlotSelect st f = st"
    by (simp add: handleSlotSelect_absent)
qed

theorem selection_bounded_by_five_witness:
  "selectedSlots (select_all initial_form (ex_five @ [ex_slot ''14'' ''15''])) = ex_five \<and>
   length (selectedSlots (ex_form ex_five)) = 5 \<and>
   length (selectedSlots (select_all (ex_form ex_five) (ex_five @ [ex_slot ''14'' ''15'']))) \<le> 5 \<and>
   slot_id (ex_slot ''14'' ''15'') \<notin> slot_id ` set (selectedSlots (ex_form ex_five)) \<and>
   handleSlotSelect (ex_form ex_five) (ex_slot ''14'' ''15'') = ex_form ex_five"
  using selection_bounded_by_five
    [of "ex_five @ [ex_slot ''14'' ''15'']" "ex_form ex_five" "ex_slot ''14'' ''15''"]
  by (simp add: select_all_def handleSlotSelect_def ex_form_def initial_form_def
        ex_five_def ex_slot_def formatSlot_def)

text \<open>
  Claim C6. In every selection state the form can be in (any sequence of selection
  clicks from the empty selection; more generally any state with at most five selected
  slots), selecting the same slot twice leaves the set of selected ids as it was, the
  other fields of the form included. When the slot is the only one carrying its id (ids
  are computed from start and end), the set of selected slots and their number are as
  they were too. The order may differ: a slot deselected and selected again goes last.
\<close>

theorem select_twice_restores:
  "slot_id ` set (selectedSlots (handleSlotSelect (handleSlotSelect (select_all initial_form fs) f) f))
     = slot_id ` set (selectedSlots (select_all initial_form fs)) \<and>
   ((\<forall>s \<in> set (selectedSlots (select_all initial_form fs)). slot_id s = slot_id f \<longrightarrow> s = f) \<longrightarrow>
      set (selectedSlots (handleSlotSelect (handleSlotSelect (select_all initial_form fs) f) f))
        = set (selectedSlots (select_all initial_form fs)) \<and>
      length (selectedSlots (handleSlotSelect (handleSlotSelect (select_all initial_form fs) f) f))
        = length (selectedSlots (select_all initial_form fs))) \<and>
   (length (selectedSlots st) \<le> 5 \<longrightarrow>
      slot_id ` set (selectedSlots (handleSlotSelect (handleSlotSelect st f) f))
        = slot_id ` set (selectedSlots st)) \<and>
   (length (selectedSlots st) \<le> 5 \<and> (\<forall>s \<in> set (selectedSlots st). slot_id s = slot_id f \<longrightarrow> s = f) \<longrightarrow>
      set (selectedSlots (handleSlotSelect (handleSlotSelect st f) f)) = set (selectedSlots st)) \<and>
   (slot_id f \<notin> slot_id ` set (selectedSlots st) \<longrightarrow>
      handleSlotSelect (handleSlotSelect st f) f = st)"
proof -
  let ?r = "select_all initial_form fs"
  have len: "length (selectedSlots ?r) \<le> 5"
    by (rule select_all_length) (simp add: initial_form_slots)
  have dist: "distinct (map slot_id (selectedSlots ?r))"
    by (rule select_all_distinct) (simp add: initial_form_slots)
  have a: "slot_id ` set (selectedSlots (handleSlotSelect (handleSlotSelect ?r f) f))
            = slot_id ` set (selectedSlots ?r)"
    by (rule twice_ids [OF len])
  have b: "set (selectedSlots (handleSlotSelect (handleSlotSelect ?r f) f)) = set (selectedSlots ?r)"
    if "\<forall>s \<in> set (selectedSlots ?r). slot_id s = slot_id f \<longrightarrow> s = f"
    using twice_set [OF len that] .
  have dist2: "distinct (map slot_id (selectedSlots (handleSlotSelect (handleSlotSelect ?r f) f)))"
    by (intro handleSlotSelect_distinct dist)
  have c: "length (selectedSlots (handleSlotSelect (handleSlotSelect ?r f) f))
            = length (selectedSlots ?r)"
  proof -
    have "card (slot_id ` set (selectedSlots (handleSlotSelect (handleSlotSelect ?r f) f)))
           = card (slot_id ` set (selectedSlots ?r))"
      by (simp only: a)
    then show ?thesis
      using distinct_card [OF dist] distinct_card [OF dist2] by simp
  qed
  show ?thesis
    using a b c twice_ids [of st f] twice_set [of st f] twice_absent_same [of f st]
    by blast
qed

theorem select_twice_restores_witness:
  "selectedSlots (handleSlotSelect (handleSlotSelect
      (select_all initial_form [ex_slot ''09'' ''10'', ex_slot ''10'' ''11''])
      (ex_slot ''09'' ''10'')) (ex_slot ''09'' ''10''))
     = [ex_slot ''10'' ''11'', ex_slot ''09'' ''10''] \<and>
   set (selectedSlots (handleSlotSelect (handleSlotSelect
      (select_all initial_form [ex_slot ''09'' ''10'', ex_slot ''10'' ''11''])
      (ex_slot ''09'' ''10'')) (ex_slot ''09'' ''10'')))
     = set (selectedSlots (select_all initial_form [ex_slot ''09'' ''10'', ex_slot ''10'' ''11''])) \<and>
   length (selectedSlots (ex_form ex_five)) \<le> 5 \<and>
   set (selectedSlots (handleSlotSelect (handleSlotSelect (ex_form ex_five) (ex_slot ''10'' ''11''))
      (ex_slot ''10'' ''11''))) = set (selectedSlots (ex_form ex_five)) \<and>
   slot_id ` set (selectedSlots (handleSlotSelect (handleSlotSelect (ex_form ex_five)
      (ex_slot ''10'' ''11'')) (ex_slot ''10'' ''11''))) = slot_id ` set (selectedSlots (ex_form ex_five)) \<and>
   slot_id (ex_slot ''14'' ''15'') \<notin> slot_id ` set (selectedSlots (ex_form ex_five)) \<and>
   handleSlotSelect (handleSlotSelect (ex_form ex_five) (ex_slot ''14'' ''15''))
      (ex_slot ''14'' ''15'') = ex_form ex_five"
proof -
  have a: "selectedSlots (select_all initial_form [ex_slot ''09'' ''10'', ex_slot ''10'' ''11''])
      = [ex_slot ''09'' ''10'', ex_slot ''10'' ''11'']"
    by (simp add: select_all_def handleSlotSelect_def initial_form_def ex_slot_def formatSlot_def)
  have b: "selectedSlots (handleSlotSelect (handleSlotSelect
      (select_all initial_form [ex_slot ''09'' ''10'', ex_slot ''10'' ''11''])
      (ex_slot ''09'' ''10'')) (ex_slot ''09'' ''10''))
     = [ex_slot ''10'' ''11'', ex_slot ''09'' ''10'']"
    by (simp add: select_all_def handleSlotSelect_def initial_form_def ex_slot_def formatSlot_def)
  have c: "\<forall>s \<in> set (selectedSlots (select_all initial_form [ex_slot ''09'' ''10'', ex_slot ''10'' ''11''])).
      slot_id s = slot_id (ex_slot ''09'' ''10'') \<longrightarrow> s = ex_slot ''09'' ''10''"
    unfolding a by (simp add: ex_slot_def formatSlot_def)
  have d: "length (selectedSlots (ex_form ex_five)) \<le> 5 \<and>
      (\<forall>s \<in> set (selectedSlots (ex_form ex_five)).
         slot_id s = slot_id (ex_slot ''10'' ''11'') \<longrightarrow> s = ex_slot ''10'' ''11'')"
    by (simp add: ex_form_def ex_five_def ex_slot_def formatSlot_def)
  have e: "slot_id (ex_slot ''14'' ''15'') \<notin> slot_id ` set (selectedSlots (ex_form ex_five))"
    by (simp add: ex_form_def ex_five_def ex_slot_def formatSlot_def)
  show ?thesis
    using b c d e
      select_twice_restores [of "[ex_slot ''09'' ''10'', ex_slot ''10'' ''11'']"
        "ex_slot ''09'' ''10''" "ex_form ex_five"]
      select_twice_restores [of "[]" "ex_slot ''10'' ''11''" "ex_form ex_five"]
      select_twice_restores [of "[]" "ex_slot ''14'' ''15''" "ex_form ex_five"]
    by simp
qed

text \<open>
  Claim C10. The id of a formatted slot is its start, a hyphen and its end. When the
  selected slots have pairwise distinct ids, they still have after a selection click;
  a click on an id that is selected leaves no entry with that id; and the selection
  reached by any sequence of clicks from the empty selection has pairwise distinct
  ids.
\<close>

theorem selection_ids_distinct:
  "slot_id (formatSlot fmt slot) = slot_start slot @ ''-'' @ slot_end slot \<and>
   (distinct (map slot_id (selectedSlots st)) \<longrightarrow>
      distinct (map slot_id (selectedSlots (handleSlotSelect st f)))) \<and>
   (slot_id f \<in> slot_id ` set (selectedSlots st) \<longrightarrow>
      slot_id f \<notin> slot_id ` set (selectedSlots (handleSlotSelect st f))) \<and>
   distinct (map slot_id (selectedSlots (select_all initial_form fs)))"
proof (intro conjI impI)
  show "slot_id (formatSlot fmt slot) = slot_start slot @ ''-'' @ slot_end slot"
    by (simp add: formatSlot_def)
next
  assume "distinct (map slot_id (selectedSlots st))"
  then show "distinct (map slot_id (selectedSlots (handleSlotSelect st f)))"
    by (rule handleSlotSelect_distinct)
next
  assume "slot_id f \<in> slot_id ` set (selectedSlots st)"
  then show "slot_id f \<notin> slot_id ` set (selectedSlots (handleSlotSelect st f))"
    by (auto simp: handleSlotSelect_present)
next
  show "distinct (map slot_id (selectedSlots (select_all initial_form fs)))"
    by (rule select_all_distinct) (simp add: initial_form_slots)
qed

theorem selection_ids_distinct_witness:
  "distinct (map slot_id (selectedSlots (ex_form ex_five))) \<and>
   slot_id (ex_slot ''10'' ''11'') \<in> slot_id ` set (selectedSlots (ex_form ex_five)) \<and>
   selectedSlots (handleSlotSelect (ex_form ex_five) (ex_slot ''10'' ''11''))
     = [ex_slot ''09'' ''10'', ex_slot ''11'' ''12'', ex_slot ''12'' ''13'', ex_slot ''13'' ''14''] \<and>
   distinct (map slot_id (selectedSlots (handleSlotSelect (ex_form ex_five) (ex_slot ''10'' ''11'')))) \<and>
   slot_id (ex_slot ''10'' ''11'') \<notin>
     slot_id ` set (selectedSlots (handleSlotSelect (ex_form ex_five) (ex_slot ''10'' ''11'')))"
proof -
  have a: "distinct (map slot_id (selectedSlots (ex_form ex_five))) \<and>
      slot_id (ex_slot ''10'' ''11'') \<in> slot_id ` set (selectedSlots (ex_form ex_five))"
    by (simp add: ex_form_def ex_five_def ex_slot_def formatSlot_def)
  have b: "selectedSlots (handleSlotSelect (ex_form ex_five) (ex_slot ''10'' ''11''))
     = [ex_slot ''09'' ''10'', ex_slot ''11'' ''12'', ex_slot ''12'' ''13'', ex_slot ''13'' ''14'']"
    by (simp add: handleSlotSelect_def ex_form_def ex_five_def ex_slot_def formatSlot_def)
  show ?thesis
    using a b
      selection_ids_distinct [of "\<lambda>x y. x" "\<lparr>slot_start = ''09'', slot_end = ''10''\<rparr>"
        "ex_form ex_five" "ex_slot ''10'' ''11''" "[]"]
    by simp
qed

section \<open>Properties of form validation\<close>

lemma rep_Cls_end:
  "([] \<in> set (rep (rmatch (Cls p)) lo hi s)) = (lo \<le> length s \<and> length s \<le> hi \<and> list_all p s)"
proof (induction hi arbitrary: lo s)
  case 0
  then show ?case by auto
next
  case (Suc hi)
  show ?case
  proof (cases s)
    case Nil
    then show ?thesis by simp
  next
    case (Cons c cs)
    then show ?thesis using Suc [of "lo - 1" cs] by auto
  qed
qed

lemma plus_not_digit19: "\<not> is_digit19 CHR ''+''"
  by (simp add: is_digit19_def)

lemma validatePhoneNumber_iff: "validatePhoneNumber s = intl_format s"
proof (cases s)
  case Nil
  then show ?thesis
    by (simp add: validatePhoneNumber_def regex_test_def phoneRegex_def intl_format_def)
next
  case (Cons c r)
  show ?thesis
  proof (cases "c = CHR ''+''")
    case True
    then show ?thesis using Cons plus_not_digit19
      by (cases r)
        (auto simp: validatePhoneNumber_def regex_test_def phoneRegex_def intl_format_def rep_Cls_end)
  next
    case False
    then show ?thesis using Cons
      by (auto simp: validatePhoneNumber_def regex_test_def phoneRegex_def intl_format_def rep_Cls_end)
  qed
qed

lemma intl_format_nonempty: "intl_format s \<Longrightarrow> s \<noteq> []"
  by (auto simp: intl_format_def)

lemma validateForm_phone_error:
  "errors (fst (validateForm st)) ''phoneNumber'' =
     (if phoneNumber st = [] then Some ''Phone number is required''
      else if \<not> validatePhoneNumber (phoneNumber st)
      then Some ''Enter a valid phone number (e.g., +11234567890)''
      else None)"
  by (simp add: validateForm_def Let_def)

lemma validateForm_name_error:
  "errors (fst (validateForm st)) ''inviteeName'' =
     (if inviteeName st = [] then Some ''Invitee name is required'' else None)"
  by (simp add: validateForm_def Let_def)

lemma validateForm_result:
  "snd (validateForm st) =
     (phoneNumber st \<noteq> [] \<and> validatePhoneNumber (phoneNumber st) \<and> inviteeName st \<noteq> [] \<and>
      selectedSlots st \<noteq> [])"
  by (auto simp: validateForm_def Let_def)

lemma handleSubmit_sends:
  "(snd (handleSubmit st) = None) = (\<not> snd (validateForm st))"
  by (cases "validateForm st") (simp add: handleSubmit_def)

lemma handleSubmit_request:
  "snd (validateForm st) \<Longrightarrow>
   snd (handleSubmit st) =
     Some \<lparr> req_phoneNumber = phoneNumber st, req_inviteeName = inviteeName st,
            req_occasion = occasion st, req_duration = duration st,
            availabilities =
              map (\<lambda>slot. \<lparr>slot_start = sel_start slot, slot_end = sel_end slot\<rparr>)
                (selectedSlots st),
            voice = ''josh'' \<rparr>"
  by (cases "validateForm st") (simp add: handleSubmit_def)

text \<open>
  Claim C4, as the code has it. Validation of the phone number passes exactly the strings
  of the international format (an optional leading plus sign, a first digit 1 to 9, then
  1 to 14 further digits). A form whose phone number is not of that format fails
  validation, records a message under the key \<open>phoneNumber\<close> and sends nothing; a form
  whose phone number is of that format records no message under that key. Among the
  examples, \<open>abc\<close> and \<open>+0123\<close> fail, and \<open>+11234567890\<close> passes.
\<close>

theorem phone_validation_exact:
  "validatePhoneNumber s = intl_format s \<and>
   (\<not> intl_format (phoneNumber st) \<longrightarrow>
      errors (fst (validateForm st)) ''phoneNumber'' =
        Some (if phoneNumber st = [] then ''Phone number is required''
              else ''Enter a valid phone number (e.g., +11234567890)'') \<and>
      \<not> snd (validateForm st) \<and> snd (handleSubmit st) = None) \<and>
   (intl_format (phoneNumber st) \<longrightarrow> errors (fst (validateForm st)) ''phoneNumber'' = None) \<and>
   \<not> validatePhoneNumber ''abc'' \<and> \<not> validatePhoneNumber ''+0123'' \<and>
   validatePhoneNumber ''+11234567890''"
proof (intro conjI impI)
  show "validatePhoneNumber s = intl_format s"
    by (rule validatePhoneNumber_iff)
next
  assume bad: "\<not> intl_format (phoneNumber st)"
  then have nv: "\<not> validatePhoneNumber (phoneNumber st)"
    by (simp add: validatePhoneNumber_iff)
  show "errors (fst (validateForm st)) ''phoneNumber'' =
        Some (if phoneNumber st = [] then ''Phone number is required''
              else ''Enter a valid phone number (e.g., +11234567890)'')"
    using nv by (simp add: validateForm_phone_error)
  show "\<not> snd (validateForm st)"
    using nv by (simp add: validateForm_result)
  then show "snd (handleSubmit st) = None"
    using handleSubmit_sends [of st] by simp
next
  assume good: "intl_format (phoneNumber st)"
  then show "errors (fst (validateForm st)) ''phoneNumber'' = None"
    using intl_format_nonempty [OF good]
    by (simp add: validateForm_phone_error validatePhoneNumber_iff)
next
  show "\<not> validatePhoneNumber ''abc''" by code_simp
next
  show "\<not> validatePhoneNumber ''+0123''" by code_simp
next
  show "validatePhoneNumber ''+11234567890''" by code_simp
qed

theorem phone_validation_exact_witness:
  "\<not> intl_format ''+0123'' \<and>
   errors (fst (validateForm (ex_filled ''+0123'' ''Jane''))) ''phoneNumber'' =
     Some ''Enter a valid phone number (e.g., +11234567890)'' \<and>
   snd (handleSubmit (ex_filled ''+0123'' ''Jane'')) = None \<and>
   intl_format ''+15551234567'' \<and>
   errors (fst (validateForm (ex_filled ''+15551234567'' ''Jane''))) ''phoneNumber'' = None"
proof -
  have a: "\<not> intl_format (phoneNumber (ex_filled ''+0123'' ''Jane''))"
    by (simp add: ex_filled_def intl_format_def is_digit19_def)
  have b: "intl_format (phoneNumber (ex_filled ''+15551234567'' ''Jane''))"
    by (simp add: ex_filled_def intl_format_def is_digit19_def is_digit_def)
  have pa: "phoneNumber (ex_filled ''+0123'' ''Jane'') = ''+0123''"
    and pb: "phoneNumber (ex_filled ''+15551234567'' ''Jane'') = ''+15551234567''"
    by (simp_all add: ex_filled_def)
  show ?thesis
    using a b
      phone_validation_exact [of "''+0123''" "ex_filled ''+0123'' ''Jane''"]
      phone_validation_exact [of "''+15551234567''" "ex_filled ''+15551234567'' ''Jane''"]
    by (simp add: pa pb)
qed

text \<open>
  The string \<open>123\<close> has a first digit 1 and two further digits, so it matches the
  pattern: the form validates, no phone message is recorded, and the request is sent.
\<close>

theorem phone_123_passes:
  "validatePhoneNumber ''123'' \<and>
   snd (validateForm (ex_filled ''123'' ''Jane'')) \<and>
   errors (fst (validateForm (ex_filled ''123'' ''Jane''))) ''phoneNumber'' = None \<and>
   snd (handleSubmit (ex_filled ''123'' ''Jane'')) \<noteq> None"
proof -
  have v: "validatePhoneNumber ''123''" by code_simp
  have p: "phoneNumber (ex_filled ''123'' ''Jane'') = ''123''"
    "inviteeName (ex_filled ''123'' ''Jane'') = ''Jane''"
    "selectedSlots (ex_filled ''123'' ''Jane'') \<noteq> []"
    by (simp_all add: ex_filled_def)
  have r: "snd (validateForm (ex_filled ''123'' ''Jane''))"
    by (simp add: validateForm_result p v)
  show ?thesis
    using v r handleSubmit_sends [of "ex_filled ''123'' ''Jane''"]
    by (simp add: validateForm_phone_error p)
qed

text \<open>
  Claim C9, as the code has it. Validation records a message under the key
  \<open>inviteeName\<close> exactly when the invitee name is the empty string, and then validation
  fails and nothing is sent. The name is tested as it was typed: nothing is trimmed.
\<close>

theorem invitee_name_required:
  "(errors (fst (validateForm st)) ''inviteeName'' \<noteq> None) = (inviteeName st = []) \<and>
   (inviteeName st = [] \<longrightarrow>
      errors (fst (validateForm st)) ''inviteeName'' = Some ''Invitee name is required'' \<and>
      \<not> snd (validateForm st) \<and> snd (handleSubmit st) = None)"
  using handleSubmit_sends [of st]
  by (simp add: validateForm_name_error validateForm_result)

theorem invitee_name_required_witness:
  "inviteeName (ex_filled ''+15551234567'' []) = [] \<and>
   errors (fst (validateForm (ex_filled ''+15551234567'' []))) ''inviteeName''
     = Some ''Invitee name is required'' \<and>
   snd (handleSubmit (ex_filled ''+15551234567'' [])) = None"
proof -
  have e: "inviteeName (ex_filled ''+15551234567'' []) = []"
    by (simp add: ex_filled_def)
  show ?thesis
    using e invitee_name_required [of "ex_filled ''+15551234567'' []"] by simp
qed

text \<open>
  A name of three blanks is not empty: the form validates, no name message is recorded,
  and the request goes out with the blank name.
\<close>

theorem blank_name_passes:
  "snd (validateForm (ex_filled ''+15551234567'' ''   '')) \<and>
   errors (fst (validateForm (ex_filled ''+15551234567'' ''   ''))) ''inviteeName'' = None \<and>
   map_option req_inviteeName (snd (handleSubmit (ex_filled ''+15551234567'' ''   '')))
     = Some ''   ''"
proof -
  have v: "validatePhoneNumber ''+15551234567''" by code_simp
  have p: "phoneNumber (ex_filled ''+15551234567'' ''   '') = ''+15551234567''"
    "inviteeName (ex_filled ''+15551234567'' ''   '') = ''   ''"
    "selectedSlots (ex_filled ''+15551234567'' ''   '') \<noteq> []"
    by (simp_all add: ex_filled_def)
  have r: "snd (validateForm (ex_filled ''+15551234567'' ''   ''))"
    by (simp add: validateForm_result p v)
  show ?thesis
    using r by (simp add: validateForm_name_error p handleSubmit_request)
qed

section \<open>Properties of transcript normalisation\<close>

lemma rmatch_lit_ci:
  "rmatch (lit_ci p) s =
     (if starts_with (toLowerCase p) (toLowerCase s) then [drop (length p) s] else [])"
proof (induction p arbitrary: s)
  case Nil
  show ?case by (simp add: starts_with_def toLowerCase_def)
next
  case (Cons c cs)
  show ?case
    by (cases s) (auto simp: Cons starts_with_def toLowerCase_def)
qed

lemma toLowerCase_Agent: "toLowerCase ''Agent:'' = ''agent:''"
  by code_simp

lemma toLowerCase_User: "toLowerCase ''User:'' = ''user:''"
  by code_simp

lemma toLowerCase_AI: "toLowerCase ''AI:'' = ''ai:''"
  by code_simp

text \<open>The prefix regex removes a leading \<open>agent:\<close>, \<open>user:\<close> or \<open>ai:\<close>, in any case.\<close>

lemma replace_prefix_rolePrefix:
  "replace_prefix rolePrefix line =
     (if starts_with ''agent:'' (toLowerCase line) then drop 6 line
      else if starts_with ''user:'' (toLowerCase line) then drop 5 line
      else if starts_with ''ai:'' (toLowerCase line) then drop 3 line
      else line)"
  by (simp add: replace_prefix_def rolePrefix_def rmatch_lit_ci toLowerCase_Agent
        toLowerCase_User toLowerCase_AI eval_nat_numeral del: lit_ci.simps)

lemma format_line_role:
  "get_prop (format_line line) ''role'' =
     Some (JString (if str_includes (toLowerCase line) ''agent:'' \<or> str_includes (toLowerCase line) ''ai:''
                    then ''agent'' else ''user''))"
  by (simp add: format_line_def Let_def)

lemma format_line_text:
  "get_prop (format_line line) ''text'' = Some (JString (trim (replace_prefix rolePrefix line)))"
  by (simp add: format_line_def Let_def)

lemma formatTranscript_absent:
  "formatTranscript host JUndefined = []" "formatTranscript host JNull = []"
  "formatTranscript host (JString []) = []"
  by (simp_all add: formatTranscript_def)

lemma formatTranscript_plain:
  "s \<noteq> [] \<Longrightarrow> JSON_parse host s = None \<Longrightarrow>
   formatTranscript host (JString s) = map format_line (split_lines s)"
  by (simp add: formatTranscript_def)

lemma map_throwing_Some:
  "\<forall>x \<in> set xs. f x \<noteq> None \<Longrightarrow> map_throwing f xs = Some (map (\<lambda>x. the (f x)) xs)"
  by (induction xs) auto

lemma map_throwing_None:
  "x \<in> set xs \<Longrightarrow> f x = None \<Longrightarrow> map_throwing f xs = None"
  by (induction xs) (auto split: option.splits)

lemma format_entry_None: "(format_entry e = None) = (e = JNull \<or> e = JUndefined)"
  by (cases e) (simp_all add: format_entry_def)

lemma js_prop_object:
  "js_prop (JObject kvs) k = (case map_of kvs k of None \<Rightarrow> JUndefined | Some v \<Rightarrow> v)"
  by (simp add: js_prop_def)

lemma format_entry_object:
  "format_entry (JObject kvs) =
     Some (JObject
       [(''role'', js_or (js_or (case map_of kvs ''role'' of None \<Rightarrow> JUndefined | Some v \<Rightarrow> v)
                            (case map_of kvs ''speaker'' of None \<Rightarrow> JUndefined | Some v \<Rightarrow> v))
                     (JString ''unknown'')),
        (''text'', js_or (js_or (case map_of kvs ''text'' of None \<Rightarrow> JUndefined | Some v \<Rightarrow> v)
                            (case map_of kvs ''content'' of None \<Rightarrow> JUndefined | Some v \<Rightarrow> v))
                     (JString []))])"
  by (simp add: format_entry_def js_prop_object)

lemma formatTranscript_json_array:
  "s \<noteq> [] \<Longrightarrow> JSON_parse host s = Some (JArray es) \<Longrightarrow>
   formatTranscript host (JString s) =
     (if JNull \<in> set es \<or> JUndefined \<in> set es then [] else map (\<lambda>e. the (format_entry e)) es)"
proof -
  assume s: "s \<noteq> []" and p: "JSON_parse host s = Some (JArray es)"
  show ?thesis
  proof (cases "JNull \<in> set es \<or> JUndefined \<in> set es")
    case True
    then obtain e where "e \<in> set es" and "format_entry e = None"
      by (auto simp: format_entry_None)
    then have "map_throwing format_entry es = None"
      by (rule map_throwing_None)
    then show ?thesis using True s p by (simp add: formatTranscript_def)
  next
    case False
    then have "\<forall>e \<in> set es. format_entry e \<noteq> None"
      by (auto simp: format_entry_None)
    then have "map_throwing format_entry es = Some (map (\<lambda>e. the (format_entry e)) es)"
      by (rule map_throwing_Some)
    then show ?thesis using False s p by (simp add: formatTranscript_def)
  qed
qed

lemma formatTranscript_json_other:
  "JSON_parse host s = Some v \<Longrightarrow> (\<forall>es. v \<noteq> JArray es) \<Longrightarrow>
   formatTranscript host (JString s) = []"
  by (cases v) (simp_all add: formatTranscript_def)

text \<open>
  A transcript that arrives as an array, not as a string, is turned into the empty list
  by the first line of \<open>formatTranscript\<close>, whatever its records.
\<close>

lemma formatTranscript_array_input: "formatTranscript host (JArray entries) = []"
  by (simp add: formatTranscript_def)

lemma ex_plain_lines:
  "map format_line (split_lines ''Agent: Hello\<newline>User: Hi there'') =
     [JObject [(''role'', JString ''agent''), (''text'', JString ''Hello'')],
      JObject [(''role'', JString ''user''), (''text'', JString ''Hi there'')]]"
  by code_simp
text \<open>
  Claim C3, as the code has it, for a transcript that is absent or a string.
  An absent or empty transcript gives the empty list. A string that is not JSON is split
  at line feeds and gives one record per line: the role is \<open>agent\<close> when the line in
  lower case contains \<open>agent:\<close> or \<open>ai:\<close> anywhere and \<open>user\<close> otherwise, and the text is
  the line without a leading \<open>Agent:\<close>, \<open>User:\<close> or \<open>AI:\<close> (in any case), trimmed. A JSON
  text of an array gives one record per entry, with role \<open>role || speaker || 'unknown'\<close>
  and text \<open>text || content || ''\<close>, or the empty list when an entry is \<open>null\<close>. A JSON
  text of anything else gives the empty list. The function is total: every exception of
  the source is caught and is a case of the model. The example of the specification
  comes out as stated.
\<close>

theorem transcript_normalisation:
  "formatTranscript host JUndefined = [] \<and> formatTranscript host JNull = [] \<and>
   formatTranscript host (JString []) = [] \<and>
   (s \<noteq> [] \<and> JSON_parse host s = None \<longrightarrow>
      formatTranscript host (JString s) = map format_line (split_lines s) \<and>
      (\<forall>e \<in> set (formatTranscript host (JString s)).
         get_prop e ''role'' = Some (JString ''agent'') \<or>
         get_prop e ''role'' = Some (JString ''user''))) \<and>
   get_prop (format_line line) ''role'' =
     Some (JString (if str_includes (toLowerCase line) ''agent:'' \<or>
                       str_includes (toLowerCase line) ''ai:''
                    then ''agent'' else ''user'')) \<and>
   get_prop (format_line line) ''text'' =
     Some (JString (trim
       (if starts_with ''agent:'' (toLowerCase line) then drop 6 line
        else if starts_with ''user:'' (toLowerCase line) then drop 5 line
        else if starts_with ''ai:'' (toLowerCase line) then drop 3 line
        else line))) \<and>
   (s \<noteq> [] \<and> JSON_parse host s = Some (JArray es) \<longrightarrow>
      formatTranscript host (JString s) =
        (if JNull \<in> set es \<or> JUndefined \<in> set es then []
         else map (\<lambda>e. the (format_entry e)) es)) \<and>
   format_entry (JObject kvs) =
     Some (JObject
       [(''role'', js_or (js_or (case map_of kvs ''role'' of None \<Rightarrow> JUndefined | Some v \<Rightarrow> v)
                            (case map_of kvs ''speaker'' of None \<Rightarrow> JUndefined | Some v \<Rightarrow> v))
                     (JString ''unknown'')),
        (''text'', js_or (js_or (case map_of kvs ''text'' of None \<Rightarrow> JUndefined | Some v \<Rightarrow> v)
                            (case map_of kvs ''content'' of None \<Rightarrow> JUndefined | Some v \<Rightarrow> v))
                     (JString []))]) \<and>
   (JSON_parse host s = Some v \<and> (\<forall>xs. v \<noteq> JArray xs) \<longrightarrow>
      formatTranscript host (JString s) = []) \<and>
   (JSON_parse host ''Agent: Hello\<newline>User: Hi there'' = None \<longrightarrow>
      formatTranscript host (JString ''Agent: Hello\<newline>User: Hi there'') =
        [JObject [(''role'', JString ''agent''), (''text'', JString ''Hello'')],
         JObject [(''role'', JString ''user''), (''text'', JString ''Hi there'')]])"
proof -
  have plain: "formatTranscript host (JString s) = map format_line (split_lines s)"
    if "s \<noteq> [] \<and> JSON_parse host s = None"
    using that by (simp add: formatTranscript_plain)
  have roles: "\<forall>e \<in> set (formatTranscript host (JString s)).
         get_prop e ''role'' = Some (JString ''agent'') \<or>
         get_prop e ''role'' = Some (JString ''user'')"
    if "s \<noteq> [] \<and> JSON_parse host s = None"
    unfolding plain [OF that] by (auto simp: format_line_role)
  have tfield: "get_prop (format_line line) ''text'' =
     Some (JString (trim
       (if starts_with ''agent:'' (toLowerCase line) then drop 6 line
        else if starts_with ''user:'' (toLowerCase line) then drop 5 line
        else if starts_with ''ai:'' (toLowerCase line) then drop 3 line
        else line)))"
    by (simp only: format_line_text replace_prefix_rolePrefix)
  have arr: "formatTranscript host (JString s) =
        (if JNull \<in> set es \<or> JUndefined \<in> set es then []
         else map (\<lambda>e. the (format_entry e)) es)"
    if "s \<noteq> [] \<and> JSON_parse host s = Some (JArray es)"
    using that formatTranscript_json_array [of s host es] by blast
  have other: "formatTranscript host (JString s) = []"
    if "JSON_parse host s = Some v \<and> (\<forall>xs. v \<noteq> JArray xs)"
    using that formatTranscript_json_other [of host s v] by blast
  have ex: "formatTranscript host (JString ''Agent: Hello\<newline>User: Hi there'') =
        [JObject [(''role'', JString ''agent''), (''text'', JString ''Hello'')],
         JObject [(''role'', JString ''user''), (''text'', JString ''Hi there'')]]"
    if "JSON_parse host ''Agent: Hello\<newline>User: Hi there'' = None"
    using that by (simp add: formatTranscript_plain ex_plain_lines del: split_lines.simps)
  show ?thesis
    using plain roles tfield arr other ex
    by (simp only: formatTranscript_absent format_line_role format_entry_object) blast
qed

theorem transcript_normalisation_witness:
  "formatTranscript ex_host (JString ''Agent: Hello\<newline>User: Hi there'') =
     [JObject [(''role'', JString ''agent''), (''text'', JString ''Hello'')],
      JObject [(''role'', JString ''user''), (''text'', JString ''Hi there'')]] \<and>
   formatTranscript ex_host (JString ''Agent: Hello\<newline>User: Hi there'') =
     map format_line (split_lines ''Agent: Hello\<newline>User: Hi there'') \<and>
   JSON_parse ex_host ex_json =
     Some (JArray [JObject [(''role'', JString ''assistant''), (''text'', JString ''Hello'')]]) \<and>
   formatTranscript ex_host (JString ex_json) =
     map (\<lambda>e. the (format_entry e))
       [JObject [(''role'', JString ''assistant''), (''text'', JString ''Hello'')]] \<and>
   JSON_parse ex_host ''null'' = Some JNull \<and>
   formatTranscript ex_host (JString ''null'') = []"
proof -
  have a: "JSON_parse ex_host ''Agent: Hello\<newline>User: Hi there'' = None"
    by (simp add: ex_host_def ex_json_def)
  have b: "JSON_parse ex_host ex_json =
      Some (JArray [JObject [(''role'', JString ''assistant''), (''text'', JString ''Hello'')]])"
    by (simp add: ex_host_def)
  have c: "ex_json \<noteq> []"
    by (simp add: ex_json_def)
  have d: "JSON_parse ex_host ''null'' = Some JNull"
    by (simp add: ex_host_def ex_json_def)
  show ?thesis
    using a
      transcript_normalisation [of ex_host "''Agent: Hello\<newline>User: Hi there''" "[]" "[]" "[]" JNull]
      b c
      transcript_normalisation [of ex_host ex_json "[]"
        "[JObject [(''role'', JString ''assistant''), (''text'', JString ''Hello'')]]" "[]" JNull]
      d
      transcript_normalisation [of ex_host "''null''" "[]" "[]" "[]" JNull]
    by simp
qed

text \<open>
  A JSON-encoded transcript whose record has the role \<open>assistant\<close>: the role passes
  through, and the normalised record has a role that is neither \<open>agent\<close> nor \<open>user\<close>.
\<close>

theorem transcript_role_passes_through:
  "formatTranscript ex_host (JString ex_json) =
     [JObject [(''role'', JString ''assistant''), (''text'', JString ''Hello'')]] \<and>
   get_prop (hd (formatTranscript ex_host (JString ex_json))) ''role'' \<noteq> Some (JString ''agent'') \<and>
   get_prop (hd (formatTranscript ex_host (JString ex_json))) ''role'' \<noteq> Some (JString ''user'')"
proof -
  have "formatTranscript ex_host (JString ex_json) =
     [JObject [(''role'', JString ''assistant''), (''text'', JString ''Hello'')]]"
    by (simp add: formatTranscript_def ex_host_def ex_json_def format_entry_def js_or_def js_prop_def)
  then show ?thesis by simp
qed

section \<open>Properties of the call-status synchroniser\<close>

lemmas sync_defs =
  fetchCallStatus_call_def fetchCallStatus_resolved_def fetchCallStatus_rejected_def
  handleMcpUpdate_call_def handleMcpUpdate_resolved_def handleMcpUpdate_rejected_def

text \<open>Without an armed interval, a listener or a pending details call, no event issues a fetch.\<close>

lemma hook_step_inert:
  assumes "\<not> timer st" "\<not> listener st" "details_pending st = 0"
  shows "fetches_issued (hook_step host c st ev) = fetches_issued st \<and>
         \<not> timer (hook_step host c st ev) \<and> \<not> listener (hook_step host c st ev) \<and>
         details_pending (hook_step host c st ev) = 0"
  using assms by (cases ev) (simp_all add: hook_step_def sync_defs)

lemma hook_run_inert:
  assumes "\<not> timer st" "\<not> listener st" "details_pending st = 0"
  shows "fetches_issued (hook_run host c st evs) = fetches_issued st \<and>
         \<not> timer (hook_run host c st evs) \<and> \<not> listener (hook_run host c st evs) \<and>
         details_pending (hook_run host c st evs) = 0"
  using assms unfolding hook_run_def
proof (induction evs arbitrary: st)
  case Nil
  then show ?case by simp
next
  case (Cons ev evs)
  have s: "fetches_issued (hook_step host c st ev) = fetches_issued st \<and>
         \<not> timer (hook_step host c st ev) \<and> \<not> listener (hook_step host c st ev) \<and>
         details_pending (hook_step host c st ev) = 0"
    using Cons.prems by (rule hook_step_inert)
  show ?case
    using Cons.IH [of "hook_step host c st ev"] s by simp
qed

lemma hook_step_frozen:
  assumes "\<not> timer st" "\<not> listener st" "details_pending st = 0"
    and "fetches_settled st = fetches_issued st"
  shows "hook_step host c st ev = st"
  using assms by (cases ev) (simp_all add: hook_step_def)

lemma hook_run_frozen:
  assumes "\<not> timer st" "\<not> listener st" "details_pending st = 0"
    and "fetches_settled st = fetches_issued st"
  shows "hook_run host c st evs = st"
  unfolding hook_run_def
  by (induction evs) (simp_all add: hook_step_frozen [OF assms])

lemma view_step_inert:
  "\<not> timer st \<Longrightarrow>
   fetches_issued (view_step c st ev) = fetches_issued st \<and> \<not> timer (view_step c st ev)"
  by (cases ev) (simp_all add: view_step_def sync_defs)

lemma view_run_inert:
  "\<not> timer st \<Longrightarrow>
   fetches_issued (view_run c st evs) = fetches_issued st \<and> \<not> timer (view_run c st evs)"
  unfolding view_run_def
proof (induction evs arbitrary: st)
  case Nil
  then show ?case by simp
next
  case (Cons ev evs)
  show ?case
    using Cons.IH [of "view_step c st ev"] view_step_inert [OF Cons.prems, of c ev] by simp
qed

lemma view_step_frozen:
  "\<not> timer st \<Longrightarrow> fetches_settled st = fetches_issued st \<Longrightarrow> view_step c st ev = st"
  by (cases ev) (simp_all add: view_step_def)

lemma view_run_frozen:
  assumes "\<not> timer st" "fetches_settled st = fetches_issued st"
  shows "view_run c st evs = st"
  unfolding view_run_def
  by (induction evs) (simp_all add: view_step_frozen [OF assms])

lemma hook_step_listener: "listener st \<Longrightarrow> listener (hook_step host c st ev)"
  by (cases ev) (simp_all add: hook_step_def sync_defs)

lemma hook_run_listener: "listener st \<Longrightarrow> listener (hook_run host c st evs)"
  unfolding hook_run_def
  by (induction evs arbitrary: st) (simp_all add: hook_step_listener)

text \<open>The only event that disarms the interval is a fetch resolving with a terminal status.\<close>

lemma hook_step_timer:
  "timer st \<Longrightarrow>
   timer (hook_step host c st ev) =
     (\<not> (\<exists>data. ev = FetchResolved data \<and> terminal data \<and> fetches_settled st < fetches_issued st))"
  by (cases ev) (simp_all add: hook_step_def sync_defs)

lemma view_step_timer:
  "timer st \<Longrightarrow>
   timer (view_step c st ev) =
     (\<not> (\<exists>data. ev = FetchResolved data \<and> terminal data \<and> fetches_settled st < fetches_issued st))"
  by (cases ev) (simp_all add: view_step_def sync_defs)

lemma hook_run_timer:
  "timer st \<Longrightarrow> \<forall>ev \<in> set evs. \<forall>data. ev = FetchResolved data \<longrightarrow> \<not> terminal data \<Longrightarrow>
   timer (hook_run host c st evs)"
  unfolding hook_run_def
proof (induction evs arbitrary: st)
  case Nil
  then show ?case by simp
next
  case (Cons ev evs)
  have "timer (hook_step host c st ev)"
    using Cons.prems by (auto simp: hook_step_timer)
  then show ?case using Cons by simp
qed

lemma view_run_timer:
  "timer st \<Longrightarrow> \<forall>ev \<in> set evs. \<forall>data. ev = FetchResolved data \<longrightarrow> \<not> terminal data \<Longrightarrow>
   timer (view_run c st evs)"
  unfolding view_run_def
proof (induction evs arbitrary: st)
  case Nil
  then show ?case by simp
next
  case (Cons ev evs)
  have "timer (view_step c st ev)"
    using Cons.prems by (auto simp: view_step_timer)
  then show ?case using Cons by simp
qed

lemma formatMcpCallData_keys:
  "truthy mcpData \<Longrightarrow>
   dom (map_of (the (formatMcpCallData host now mcpData))) =
     {''call_id'', ''status'', ''duration_seconds'', ''credits_used'', ''transcript'', ''events''}"
  by (auto simp: formatMcpCallData_def split: if_splits)

lemma spread_apply:
  "spread prevData formattedData k =
     (case formattedData of
        None \<Rightarrow> prevData k
      | Some kvs \<Rightarrow> (case map_of kvs k of None \<Rightarrow> prevData k | Some v \<Rightarrow> Some v))"
  by (simp add: spread_def map_add_def split: option.splits)

lemma hook_step_no_provider:
  "\<not> listener st \<and> details_pending st = 0 \<Longrightarrow>
   \<not> listener (hook_step host c st ev) \<and> details_pending (hook_step host c st ev) = 0"
  by (cases ev) (simp_all add: hook_step_def sync_defs)

lemma hook_run_no_provider:
  "\<not> listener st \<and> details_pending st = 0 \<Longrightarrow>
   \<not> listener (hook_run host c st evs) \<and> details_pending (hook_run host c st evs) = 0"
  unfolding hook_run_def
proof (induction evs arbitrary: st)
  case Nil
  then show ?case by simp
next
  case (Cons ev evs)
  show ?case
    using Cons.IH [OF hook_step_no_provider [OF Cons.prems, of host c ev]] by simp
qed

lemma effect_no_provider:
  assumes "\<forall>r u. mcp \<noteq> McpObject r u"
  shows "\<not> listener (useCallStatus_effect c mcp (useCallStatus_init i)) \<and>
         details_pending (useCallStatus_effect c mcp (useCallStatus_init i)) = 0"
proof (cases mcp)
  case McpUndefined
  then show ?thesis
    by (simp add: useCallStatus_effect_def useCallStatus_init_def sync_defs Let_def)
next
  case McpFalsy
  then show ?thesis
    by (simp add: useCallStatus_effect_def useCallStatus_init_def sync_defs Let_def)
next
  case (McpObject r u)
  with assms show ?thesis by blast
qed

lemma hook_step_terminal:
  "terminal data \<Longrightarrow> fetches_settled st < fetches_issued st \<Longrightarrow>
   \<not> timer (hook_step host c st (FetchResolved data)) \<and>
   callData (hook_step host c st (FetchResolved data)) = data \<and>
   fetches_issued (hook_step host c st (FetchResolved data)) = fetches_issued st \<and>
   listener (hook_step host c st (FetchResolved data)) = listener st \<and>
   details_pending (hook_step host c st (FetchResolved data)) = details_pending st"
  by (simp add: hook_step_def sync_defs)

lemma view_step_terminal:
  "terminal data \<Longrightarrow> fetches_settled st < fetches_issued st \<Longrightarrow>
   \<not> timer (view_step c st (FetchResolved data)) \<and>
   callData (view_step c st (FetchResolved data)) = data \<and>
   fetches_issued (view_step c st (FetchResolved data)) = fetches_issued st"
  by (simp add: view_step_def sync_defs)

text \<open>
  Claim C1, as the code has it. Polling (in the hook and in the component): when a fetch
  resolves with status \<open>completed\<close> or \<open>error\<close>, the snapshot is that answer and the
  interval is disarmed; from then on, whatever happens, no fetch is issued any more, and
  once no earlier request is in flight the state does not change at all. So for a hook
  mounted without a provider object: after a terminal answer, the number of fetches
  issued stays what it was. Push: no event removes the listener, and the details of a
  later event are merged into the snapshot whatever its status.
\<close>

theorem terminal_status_stops_polling:
  "(terminal data \<and> fetches_settled st < fetches_issued st \<longrightarrow>
      \<not> timer (hook_step host c st (FetchResolved data)) \<and>
      callData (hook_step host c st (FetchResolved data)) = data) \<and>
   (terminal data \<and> fetches_settled vs < fetches_issued vs \<longrightarrow>
      \<not> timer (view_step c vs (FetchResolved data)) \<and>
      callData (view_step c vs (FetchResolved data)) = data) \<and>
   (\<not> timer st \<and> \<not> listener st \<and> details_pending st = 0 \<longrightarrow>
      fetches_issued (hook_run host c st evs) = fetches_issued st \<and>
      \<not> timer (hook_run host c st evs)) \<and>
   (\<not> timer st \<and> \<not> listener st \<and> details_pending st = 0 \<and>
    fetches_settled st = fetches_issued st \<longrightarrow> hook_run host c st evs = st) \<and>
   (\<not> timer vs \<longrightarrow>
      fetches_issued (view_run c vs evs) = fetches_issued vs \<and> \<not> timer (view_run c vs evs)) \<and>
   (\<not> timer vs \<and> fetches_settled vs = fetches_issued vs \<longrightarrow> view_run c vs evs = vs) \<and>
   ((\<forall>r u. mcp \<noteq> McpObject r u) \<and> terminal data \<and>
    fetches_settled (hook_run host c (useCallStatus_effect c mcp (useCallStatus_init i)) evs0)
      < fetches_issued (hook_run host c (useCallStatus_effect c mcp (useCallStatus_init i)) evs0) \<longrightarrow>
      fetches_issued
        (hook_run host c
           (hook_step host c
              (hook_run host c (useCallStatus_effect c mcp (useCallStatus_init i)) evs0)
              (FetchResolved data)) evs)
        = fetches_issued (hook_run host c (useCallStatus_effect c mcp (useCallStatus_init i)) evs0)) \<and>
   (listener st \<longrightarrow> listener (hook_run host c st evs)) \<and>
   (0 < details_pending st \<longrightarrow>
      callData (hook_step host c st (DetailsResolved mcpData now)) =
        spread (callData st) (formatMcpCallData host now mcpData))"
proof -
  let ?m = "hook_run host c (useCallStatus_effect c mcp (useCallStatus_init i)) evs0"
  have mounted: "fetches_issued (hook_run host c (hook_step host c ?m (FetchResolved data)) evs)
      = fetches_issued ?m"
    if h: "(\<forall>r u. mcp \<noteq> McpObject r u) \<and> terminal data \<and> fetches_settled ?m < fetches_issued ?m"
  proof -
    have np: "\<not> listener ?m \<and> details_pending ?m = 0"
      using h by (intro hook_run_no_provider effect_no_provider) blast
    have t: "\<not> timer (hook_step host c ?m (FetchResolved data)) \<and>
      callData (hook_step host c ?m (FetchResolved data)) = data \<and>
      fetches_issued (hook_step host c ?m (FetchResolved data)) = fetches_issued ?m \<and>
      listener (hook_step host c ?m (FetchResolved data)) = listener ?m \<and>
      details_pending (hook_step host c ?m (FetchResolved data)) = details_pending ?m"
      using h by (intro hook_step_terminal) simp_all
    show ?thesis
      using hook_run_inert [of "hook_step host c ?m (FetchResolved data)" host c evs] t np
      by simp
  qed
  have merged: "callData (hook_step host c st (DetailsResolved mcpData now)) =
        spread (callData st) (formatMcpCallData host now mcpData)"
    if "0 < details_pending st"
    using that by (simp add: hook_step_def sync_defs)
  show ?thesis
    using hook_step_terminal [of data st host c] view_step_terminal [of data vs c]
      hook_run_inert [of st host c evs] hook_run_frozen [of st host c evs]
      view_run_inert [of vs c evs] view_run_frozen [of vs c evs]
      mounted hook_run_listener [of st host c evs] merged
    by blast
qed

theorem terminal_status_stops_polling_witness:
  "terminal (ex_status ''completed'') \<and>
   fetches_settled ex_poll_hook < fetches_issued ex_poll_hook \<and>
   \<not> timer (hook_step ex_host ''c1'' ex_poll_hook (FetchResolved (ex_status ''completed''))) \<and>
   fetches_settled ex_view < fetches_issued ex_view \<and>
   \<not> timer (view_step ''c1'' ex_view (FetchResolved (ex_status ''completed''))) \<and>
   hook_run ex_host ''c1''
     (hook_step ex_host ''c1'' ex_poll_hook (FetchResolved (ex_status ''completed'')))
     [Tick, Tick, FetchResolved (ex_status ''queued''), Tick]
     = hook_step ex_host ''c1'' ex_poll_hook (FetchResolved (ex_status ''completed'')) \<and>
   fetches_issued
     (hook_run ex_host ''c1''
        (hook_step ex_host ''c1'' ex_poll_hook (FetchResolved (ex_status ''completed'')))
        [Tick, Tick, FetchResolved (ex_status ''queued''), Tick]) = 1 \<and>
   view_run ''c1'' (view_step ''c1'' ex_view (FetchResolved (ex_status ''completed'')))
     [Tick, Tick, FetchResolved (ex_status ''queued''), Tick]
     = view_step ''c1'' ex_view (FetchResolved (ex_status ''completed'')) \<and>
   fetches_issued
     (hook_run ex_host ''c1''
        (hook_step ex_host ''c1'' (hook_run ex_host ''c1'' ex_poll_hook [Tick])
           (FetchResolved (ex_status ''completed'')))
        [Tick, Tick, FetchResolved (ex_status ''queued''), Tick]) = 2 \<and>
   listener ex_push_hook \<and>
   listener (hook_run ex_host ''c1'' ex_push_hook
       [DetailsResolved (ex_details ''completed'') ''t1'',
        McpEvent (JObject [(''call_id'', JString ''c1'')])]) \<and>
   0 < details_pending ex_push_hook \<and>
   callData (hook_step ex_host ''c1'' ex_push_hook
       (DetailsResolved (ex_details ''completed'') ''t1''))
     = spread (callData ex_push_hook) (formatMcpCallData ex_host ''t1'' (ex_details ''completed''))"
proof -
  let ?t = "hook_step ex_host ''c1'' ex_poll_hook (FetchResolved (ex_status ''completed''))"
  let ?v = "view_step ''c1'' ex_view (FetchResolved (ex_status ''completed''))"
  let ?evs = "[Tick, Tick, FetchResolved (ex_status ''queued''), Tick]"
  have a: "terminal (ex_status ''completed'')"
    by (simp add: terminal_def ex_status_def)
  have b: "fetches_settled ex_poll_hook < fetches_issued ex_poll_hook"
    by (simp add: ex_poll_hook_def useCallStatus_effect_def useCallStatus_init_def sync_defs
          checkMcpAvailability_def)
  have c: "\<not> timer ?t \<and> \<not> listener ?t \<and> details_pending ?t = 0 \<and>
           fetches_settled ?t = fetches_issued ?t \<and> fetches_issued ?t = 1"
    using a by (simp add: ex_poll_hook_def useCallStatus_effect_def useCallStatus_init_def
          sync_defs checkMcpAvailability_def hook_step_def)
  have d: "fetches_settled ex_view < fetches_issued ex_view"
    by (simp add: ex_view_def CallStatus_effect_def CallStatus_init_def sync_defs)
  have e: "\<not> timer ?v \<and> fetches_settled ?v = fetches_issued ?v"
    using a by (simp add: ex_view_def CallStatus_effect_def CallStatus_init_def sync_defs
          view_step_def)
  have f: "fetches_settled (hook_run ex_host ''c1'' ex_poll_hook [Tick])
             < fetches_issued (hook_run ex_host ''c1'' ex_poll_hook [Tick]) \<and>
           fetches_issued (hook_run ex_host ''c1'' ex_poll_hook [Tick]) = 2"
    by (simp add: ex_poll_hook_def useCallStatus_effect_def useCallStatus_init_def sync_defs
          checkMcpAvailability_def hook_step_def hook_run_def)
  have g: "listener ex_push_hook \<and> 0 < details_pending ex_push_hook"
    by (simp add: ex_push_hook_def useCallStatus_effect_def useCallStatus_init_def sync_defs
          checkMcpAvailability_def js_prop_def)
  have m: "\<forall>r u. McpUndefined \<noteq> McpObject r u"
    by simp
  note w1 = terminal_status_stops_polling [where data = "ex_status ''completed''"
        and st = ex_poll_hook and host = ex_host and c = "''c1''" and vs = ex_view and evs = ?evs
        and mcp = McpUndefined and i = "Some (ex_status ''initiated'')" and ?evs0.0 = "[Tick]"
        and mcpData = JNull and now = "[]"]
  note w2 = terminal_status_stops_polling [where data = "ex_status ''completed''"
        and st = ?t and host = ex_host and c = "''c1''" and vs = ?v and evs = ?evs
        and mcp = McpUndefined and i = None and ?evs0.0 = "[]" and mcpData = JNull and now = "[]"]
  note w3 = terminal_status_stops_polling [where data = "ex_status ''completed''"
        and st = ex_push_hook and host = ex_host and c = "''c1''" and vs = ex_view
        and evs = "[DetailsResolved (ex_details ''completed'') ''t1'',
                    McpEvent (JObject [(''call_id'', JString ''c1'')])]"
        and mcp = McpUndefined and i = None and ?evs0.0 = "[]"
        and mcpData = "ex_details ''completed''" and now = "''t1''"]
  have h1: "\<not> timer ?t" "\<not> timer ?v"
    using c e by simp_all
  have h2: "hook_run ex_host ''c1'' ?t ?evs = ?t" "view_run ''c1'' ?v ?evs = ?v"
    using w2 c e by blast+
  have h3: "fetches_issued (hook_run ex_host ''c1''
        (hook_step ex_host ''c1'' (hook_run ex_host ''c1'' ex_poll_hook [Tick])
           (FetchResolved (ex_status ''completed''))) ?evs) = 2"
    using w1 m a f unfolding ex_poll_hook_def [symmetric] by simp
  have h4: "listener (hook_run ex_host ''c1'' ex_push_hook
       [DetailsResolved (ex_details ''completed'') ''t1'',
        McpEvent (JObject [(''call_id'', JString ''c1'')])])"
    using w3 g by blast
  have h5: "callData (hook_step ex_host ''c1'' ex_push_hook
       (DetailsResolved (ex_details ''completed'') ''t1''))
     = spread (callData ex_push_hook) (formatMcpCallData ex_host ''t1'' (ex_details ''completed''))"
    using w3 g by simp
  show ?thesis
    using a b d g h1 h2 h3 h4 h5 c by simp
qed

text \<open>
  Push mode: the details of the first call say \<open>completed\<close>; the provider then reports
  another event for the call, and its details, \<open>in_progress\<close>, replace the status: the
  listener was still registered. Poll mode: the fetch made by the second tick is answered
  first, with \<open>completed\<close>, and the interval is disarmed; then the answer to the first
  fetch arrives and replaces the snapshot.
\<close>

theorem snapshot_changes_after_terminal:
  "terminal (callData (hook_step ex_host ''c1'' ex_push_hook
       (DetailsResolved (ex_details ''completed'') ''t1''))) \<and>
   listener (hook_step ex_host ''c1'' ex_push_hook
       (DetailsResolved (ex_details ''completed'') ''t1'')) \<and>
   callData (hook_run ex_host ''c1'' ex_push_hook
       [DetailsResolved (ex_details ''completed'') ''t1'',
        McpEvent (JObject [(''call_id'', JString ''c1'')]),
        DetailsResolved (ex_details ''in_progress'') ''t2'']) ''status''
     = Some (JString ''in_progress'') \<and>
   terminal (callData (hook_run ex_host ''c1'' ex_poll_hook
       [Tick, FetchResolved (ex_status ''completed'')])) \<and>
   \<not> timer (hook_run ex_host ''c1'' ex_poll_hook
       [Tick, FetchResolved (ex_status ''completed'')]) \<and>
   callData (hook_run ex_host ''c1'' ex_poll_hook
       [Tick, FetchResolved (ex_status ''completed''), FetchResolved (ex_status ''in_progress'')])
       ''status''
     = Some (JString ''in_progress'')"
  by (simp add: ex_push_hook_def ex_poll_hook_def useCallStatus_effect_def useCallStatus_init_def
        sync_defs checkMcpAvailability_def hook_step_def hook_run_def terminal_def
        ex_status_def ex_details_def spread_def formatMcpCallData_def js_prop_def)
text \<open>
  Claim C2, on the code. With a provider object that has no \<open>registerCallListener\<close>, the
  effect resets \<open>usingMcp\<close> and makes one fetch, but arms no interval: whatever happens
  afterwards, that fetch remains the only one. (With a falsy \<open>window.blandmcp\<close> other
  than \<open>undefined\<close> the hook does poll, and keeps \<open>usingMcp\<close> set.)
\<close>

theorem fallback_without_listener_fetches_once:
  "usingMcp (useCallStatus_effect ''c1'' (McpObject False u) (useCallStatus_init i)) = False \<and>
   fetches_issued (useCallStatus_effect ''c1'' (McpObject False u) (useCallStatus_init i)) = 1 \<and>
   timer (useCallStatus_effect ''c1'' (McpObject False u) (useCallStatus_init i)) = False \<and>
   fetches_issued
     (hook_run host ''c1'' (useCallStatus_effect ''c1'' (McpObject False u) (useCallStatus_init i))
        evs) = 1 \<and>
   usingMcp (useCallStatus_effect ''c1'' McpFalsy (useCallStatus_init i)) = True \<and>
   timer (useCallStatus_effect ''c1'' McpFalsy (useCallStatus_init i)) = True"
proof -
  let ?st = "useCallStatus_effect ''c1'' (McpObject False u) (useCallStatus_init i)"
  have a: "usingMcp ?st = False \<and> fetches_issued ?st = 1 \<and> \<not> timer ?st \<and> \<not> listener ?st \<and>
           details_pending ?st = 0"
    by (simp add: useCallStatus_effect_def useCallStatus_init_def sync_defs
          checkMcpAvailability_def)
  have b: "fetches_issued (hook_run host ''c1'' ?st evs) = fetches_issued ?st"
    using a hook_run_inert [of ?st host "''c1''" evs] by simp
  have c: "usingMcp (useCallStatus_effect ''c1'' McpFalsy (useCallStatus_init i)) = True \<and>
           timer (useCallStatus_effect ''c1'' McpFalsy (useCallStatus_init i)) = True"
    by (simp add: useCallStatus_effect_def useCallStatus_init_def sync_defs
          checkMcpAvailability_def)
  show ?thesis using a b c by simp
qed

text \<open>
  Claim C7. An answer to a poll becomes the snapshot as it is: a property that only the
  previous snapshot had is gone. The details of a push update are merged into the previous
  snapshot: each property of the formatted update wins, every other property of the
  previous snapshot stays. The formatted update has the same six properties every time
  (with the value \<open>undefined\<close> where the provider's data has none); for falsy call data
  there is no update and the snapshot stays.
\<close>

theorem poll_replaces_push_merges:
  "(fetches_settled st < fetches_issued st \<longrightarrow>
      callData (hook_step host c st (FetchResolved data)) = data \<and>
      (\<forall>k. k \<notin> dom data \<longrightarrow> callData (hook_step host c st (FetchResolved data)) k = None)) \<and>
   (fetches_settled vs < fetches_issued vs \<longrightarrow>
      callData (view_step c vs (FetchResolved data)) = data) \<and>
   (0 < details_pending st \<longrightarrow>
      callData (hook_step host c st (DetailsResolved mcpData now)) k =
        (case formatMcpCallData host now mcpData of
           None \<Rightarrow> callData st k
         | Some upd \<Rightarrow> (case map_of upd k of None \<Rightarrow> callData st k | Some v \<Rightarrow> Some v))) \<and>
   (truthy mcpData \<longrightarrow>
      dom (map_of (the (formatMcpCallData host now mcpData))) =
        {''call_id'', ''status'', ''duration_seconds'', ''credits_used'', ''transcript'',
         ''events''}) \<and>
   (\<not> truthy mcpData \<longrightarrow> formatMcpCallData host now mcpData = None)"
proof (intro conjI impI allI)
  assume "fetches_settled st < fetches_issued st"
  then show r: "callData (hook_step host c st (FetchResolved data)) = data"
    by (simp add: hook_step_def sync_defs)
  fix k
  assume "k \<notin> dom data"
  then show "callData (hook_step host c st (FetchResolved data)) k = None"
    unfolding r by (simp add: domIff)
next
  assume "fetches_settled vs < fetches_issued vs"
  then show "callData (view_step c vs (FetchResolved data)) = data"
    by (simp add: view_step_def sync_defs)
next
  assume "0 < details_pending st"
  then show "callData (hook_step host c st (DetailsResolved mcpData now)) k =
        (case formatMcpCallData host now mcpData of
           None \<Rightarrow> callData st k
         | Some upd \<Rightarrow> (case map_of upd k of None \<Rightarrow> callData st k | Some v \<Rightarrow> Some v))"
    by (simp add: hook_step_def sync_defs spread_apply)
next
  assume "truthy mcpData"
  then show "dom (map_of (the (formatMcpCallData host now mcpData))) =
        {''call_id'', ''status'', ''duration_seconds'', ''credits_used'', ''transcript'',
         ''events''}"
    by (rule formatMcpCallData_keys)
next
  assume "\<not> truthy mcpData"
  then show "formatMcpCallData host now mcpData = None"
    by (simp add: formatMcpCallData_def)
qed

theorem poll_replaces_push_merges_witness:
  "fetches_settled ex_poll_hook < fetches_issued ex_poll_hook \<and>
   callData ex_poll_hook ''extracted_info'' = Some (JString ''jane@example.com'') \<and>
   callData (hook_step ex_host ''c1'' ex_poll_hook
       (FetchResolved (map_of [(''status'', JString ''queued'')]))) ''extracted_info'' = None \<and>
   fetches_settled ex_view < fetches_issued ex_view \<and>
   callData (view_step ''c1'' ex_view (FetchResolved (map_of [(''status'', JString ''queued'')])))
     = map_of [(''status'', JString ''queued'')] \<and>
   0 < details_pending ex_push_hook \<and>
   callData ex_push_hook ''extracted_info'' = Some (JString ''jane@example.com'') \<and>
   callData (hook_step ex_host ''c1'' ex_push_hook
       (DetailsResolved (ex_details ''queued'') ''t1'')) ''extracted_info''
     = Some (JString ''jane@example.com'') \<and>
   callData (hook_step ex_host ''c1'' ex_push_hook
       (DetailsResolved (ex_details ''queued'') ''t1'')) ''status'' = Some (JString ''queued'') \<and>
   truthy (ex_details ''queued'') \<and>
   dom (map_of (the (formatMcpCallData ex_host ''t1'' (ex_details ''queued'')))) =
     {''call_id'', ''status'', ''duration_seconds'', ''credits_used'', ''transcript'', ''events''} \<and>
   callData (hook_step ex_host ''c1'' ex_push_hook (DetailsResolved JNull ''t1'')) ''status''
     = Some (JString ''initiated'')"
proof -
  have a: "fetches_settled ex_poll_hook < fetches_issued ex_poll_hook \<and>
           callData ex_poll_hook ''extracted_info'' = Some (JString ''jane@example.com'')"
    by (simp add: ex_poll_hook_def useCallStatus_effect_def useCallStatus_init_def sync_defs
          checkMcpAvailability_def ex_status_def)
  have b: "0 < details_pending ex_push_hook \<and>
           callData ex_push_hook ''extracted_info'' = Some (JString ''jane@example.com'') \<and>
           callData ex_push_hook ''status'' = Some (JString ''initiated'')"
    by (simp add: ex_push_hook_def useCallStatus_effect_def useCallStatus_init_def sync_defs
          checkMcpAvailability_def ex_status_def js_prop_def)
  have v: "fetches_settled ex_view < fetches_issued ex_view"
    by (simp add: ex_view_def CallStatus_effect_def CallStatus_init_def sync_defs)
  have t: "truthy (ex_details ''queued'')" "\<not> truthy JNull"
    by (simp_all add: ex_details_def)
  have f: "formatMcpCallData ex_host ''t1'' (ex_details ''queued'') =
      Some [(''call_id'', JString ''c1''), (''status'', JString ''queued''),
            (''duration_seconds'', JUndefined), (''credits_used'', JUndefined),
            (''transcript'', JArray []),
            (''events'', JArray [mcp_event (JString ''t1'') ''Call queued''
                                  (JString ''Call is waiting in queue'')])]"
    by (simp add: formatMcpCallData_def ex_details_def js_prop_def generateEventsFromMcp_def
          js_or_def)
  have g: "formatMcpCallData ex_host ''t1'' JNull = None"
    by (simp add: formatMcpCallData_def)
  show ?thesis
    using a b v t
      poll_replaces_push_merges [where st = ex_poll_hook and host = ex_host and c = "''c1''"
        and data = "map_of [(''status'', JString ''queued'')]" and vs = ex_view
        and mcpData = JNull and now = "''t1''" and k = "[]"]
      poll_replaces_push_merges [where st = ex_push_hook and host = ex_host and c = "''c1''"
        and data = Map.empty and vs = ex_view
        and mcpData = "ex_details ''queued''" and now = "''t1''" and k = "''extracted_info''"]
      poll_replaces_push_merges [where st = ex_push_hook and host = ex_host and c = "''c1''"
        and data = Map.empty and vs = ex_view
        and mcpData = "ex_details ''queued''" and now = "''t1''" and k = "''status''"]
      poll_replaces_push_merges [where st = ex_push_hook and host = ex_host and c = "''c1''"
        and data = Map.empty and vs = ex_view
        and mcpData = JNull and now = "''t1''" and k = "''status''"]
    by (simp add: f g)
qed

text \<open>
  Claim C8. While polling (hook or component), a rejected fetch records the message
  \<open>Unable to fetch call status\<close>, leaves the snapshot and the armed interval as they were,
  and the next tick issues the next fetch. The only event that disarms the interval is
  a fetch resolving with status \<open>completed\<close> or \<open>error\<close>: over any sequence of events
  without one, the interval stays armed.
\<close>

theorem poll_failure_keeps_polling:
  "(timer st \<and> fetches_settled st < fetches_issued st \<and> c \<noteq> [] \<longrightarrow>
      error (hook_step host c st FetchRejected) = Some ''Unable to fetch call status'' \<and>
      timer (hook_step host c st FetchRejected) \<and>
      callData (hook_step host c st FetchRejected) = callData st \<and>
      fetches_issued (hook_step host c (hook_step host c st FetchRejected) Tick)
        = Suc (fetches_issued st)) \<and>
   (timer vs \<and> fetches_settled vs < fetches_issued vs \<and> c \<noteq> [] \<longrightarrow>
      error (view_step c vs FetchRejected) = Some ''Unable to fetch call status'' \<and>
      timer (view_step c vs FetchRejected) \<and>
      callData (view_step c vs FetchRejected) = callData vs \<and>
      fetches_issued (view_step c (view_step c vs FetchRejected) Tick) = Suc (fetches_issued vs)) \<and>
   (timer st \<and> \<not> timer (hook_step host c st ev) \<longrightarrow>
      (\<exists>d. ev = FetchResolved d \<and> terminal d)) \<and>
   (timer vs \<and> \<not> timer (view_step c vs ev) \<longrightarrow>
      (\<exists>d. ev = FetchResolved d \<and> terminal d)) \<and>
   (timer st \<and> (\<forall>e \<in> set evs. \<forall>d. e = FetchResolved d \<longrightarrow> \<not> terminal d) \<longrightarrow>
      timer (hook_run host c st evs)) \<and>
   (timer vs \<and> (\<forall>e \<in> set evs. \<forall>d. e = FetchResolved d \<longrightarrow> \<not> terminal d) \<longrightarrow>
      timer (view_run c vs evs))"
proof (intro conjI impI)
  assume h: "timer st \<and> fetches_settled st < fetches_issued st \<and> c \<noteq> []"
  then show "error (hook_step host c st FetchRejected) = Some ''Unable to fetch call status''"
    and "timer (hook_step host c st FetchRejected)"
    and "callData (hook_step host c st FetchRejected) = callData st"
    and "fetches_issued (hook_step host c (hook_step host c st FetchRejected) Tick)
        = Suc (fetches_issued st)"
    by (simp_all add: hook_step_def sync_defs)
next
  assume h: "timer vs \<and> fetches_settled vs < fetches_issued vs \<and> c \<noteq> []"
  then show "error (view_step c vs FetchRejected) = Some ''Unable to fetch call status''"
    and "timer (view_step c vs FetchRejected)"
    and "callData (view_step c vs FetchRejected) = callData vs"
    and "fetches_issued (view_step c (view_step c vs FetchRejected) Tick) = Suc (fetches_issued vs)"
    by (simp_all add: view_step_def sync_defs)
next
  assume "timer st \<and> \<not> timer (hook_step host c st ev)"
  then show "\<exists>d. ev = FetchResolved d \<and> terminal d"
    using hook_step_timer [of st host c ev] by auto
next
  assume "timer vs \<and> \<not> timer (view_step c vs ev)"
  then show "\<exists>d. ev = FetchResolved d \<and> terminal d"
    using view_step_timer [of vs c ev] by auto
next
  assume "timer st \<and> (\<forall>e \<in> set evs. \<forall>d. e = FetchResolved d \<longrightarrow> \<not> terminal d)"
  then show "timer (hook_run host c st evs)"
    using hook_run_timer [of st evs host c] by blast
next
  assume "timer vs \<and> (\<forall>e \<in> set evs. \<forall>d. e = FetchResolved d \<longrightarrow> \<not> terminal d)"
  then show "timer (view_run c vs evs)"
    using view_run_timer [of vs evs c] by blast
qed

theorem poll_failure_keeps_polling_witness:
  "timer ex_poll_hook \<and> fetches_settled ex_poll_hook < fetches_issued ex_poll_hook \<and>
   fetches_issued ex_poll_hook = 1 \<and>
   error (hook_step ex_host ''c1'' ex_poll_hook FetchRejected)
     = Some ''Unable to fetch call status'' \<and>
   timer (hook_step ex_host ''c1'' ex_poll_hook FetchRejected) \<and>
   fetches_issued (hook_step ex_host ''c1'' (hook_step ex_host ''c1'' ex_poll_hook FetchRejected) Tick)
     = 2 \<and>
   timer ex_view \<and> fetches_settled ex_view < fetches_issued ex_view \<and>
   error (view_step ''c1'' ex_view FetchRejected) = Some ''Unable to fetch call status'' \<and>
   timer (view_step ''c1'' ex_view FetchRejected) \<and>
   fetches_issued (view_step ''c1'' (view_step ''c1'' ex_view FetchRejected) Tick) = 2 \<and>
   \<not> timer (hook_step ex_host ''c1'' ex_poll_hook (FetchResolved (ex_status ''error''))) \<and>
   \<not> timer (view_step ''c1'' ex_view (FetchResolved (ex_status ''error''))) \<and>
   terminal (ex_status ''error'') \<and>
   timer (hook_run ex_host ''c1'' ex_poll_hook
            [FetchRejected, Tick, FetchResolved (ex_status ''queued''), Tick, FetchRejected]) \<and>
   timer (view_run ''c1'' ex_view
            [FetchRejected, Tick, FetchResolved (ex_status ''queued''), Tick, FetchRejected])"
proof -
  have a: "timer ex_poll_hook \<and> fetches_settled ex_poll_hook < fetches_issued ex_poll_hook \<and>
           fetches_issued ex_poll_hook = 1"
    by (simp add: ex_poll_hook_def useCallStatus_effect_def useCallStatus_init_def sync_defs
          checkMcpAvailability_def)
  have b: "timer ex_view \<and> fetches_settled ex_view < fetches_issued ex_view \<and>
           fetches_issued ex_view = 1"
    by (simp add: ex_view_def CallStatus_effect_def CallStatus_init_def sync_defs)
  have c: "\<not> terminal (ex_status ''queued'')" "terminal (ex_status ''error'')"
    by (simp_all add: terminal_def ex_status_def)
  have d: "\<not> timer (hook_step ex_host ''c1'' ex_poll_hook (FetchResolved (ex_status ''error'')))"
    using a c by (simp add: hook_step_def sync_defs)
  have e: "\<not> timer (view_step ''c1'' ex_view (FetchResolved (ex_status ''error'')))"
    using b c by (simp add: view_step_def sync_defs)
  show ?thesis
    using a b c d e
      poll_failure_keeps_polling [where st = ex_poll_hook and host = ex_host and c = "''c1''"
        and vs = ex_view and ev = "FetchResolved (ex_status ''error'')"
        and evs = "[FetchRejected, Tick, FetchResolved (ex_status ''queued''), Tick, FetchRejected]"]
    by simp
qed

end
